theory Spec2Isabelle
  imports Complex_Main "HOL-Library.Sublist" "HOL-Library.Word"
begin

section \<open>Chat with your PDF: the upload and ask handlers, and the UI's typing effect\<close>

text \<open>
  The development embeds \<^verbatim>\<open>src/app/main.py\<close> (the FastAPI service) and the
  generator functions of \<^verbatim>\<open>src/gradio_ui.py\<close>. Python strings are modelled as
  \<open>string\<close>, each element standing for one character of the Python \<open>str\<close>; the
  functions on strings below are polymorphic in the element type wherever the source only
  measures, slices or compares. \<^verbatim>\<open>print\<close> calls write to standard output only and
  are left out.
\<close>

subsection \<open>Python string and path primitives used by the source\<close>

text \<open>
  \<^verbatim>\<open>str.replace(old, new)\<close>: scanning from the left, every non-overlapping occurrence
  of \<open>old\<close> is replaced by \<open>new\<close>. For an empty \<open>old\<close>, Python inserts \<open>new\<close>
  before every character and at the end.
\<close>

function replace_str :: "'a list \<Rightarrow> 'a list \<Rightarrow> 'a list \<Rightarrow> 'a list" where
  "replace_str old new [] = (if old = [] then new else [])"
| "replace_str old new (c # cs) =
     (if old = [] then new @ concat (map (\<lambda>x. x # new) (c # cs))
      else if take (length old) (c # cs) = old
           then new @ replace_str old new (drop (length old) (c # cs))
           else c # replace_str old new cs)"
  by pat_completeness auto
termination
  by (relation "measure (\<lambda>(old, new, s). length s)") auto

text \<open>
  \<^verbatim>\<open>os.path.join(a, b)\<close> of \<^verbatim>\<open>posixpath\<close> for two arguments: an absolute \<open>b\<close>
  replaces \<open>a\<close>; otherwise a separator is inserted unless \<open>a\<close> is empty or already
  ends with one.
\<close>

definition os_path_join :: "string \<Rightarrow> string \<Rightarrow> string" where
  "os_path_join a b =
     (if b \<noteq> [] \<and> hd b = CHR ''/'' then b
      else if a = [] \<or> last a = CHR ''/'' then a @ b
      else a @ ''/'' @ b)"

text \<open>
  How the operating system reads a path: it is cut at every \<open>/\<close>; an empty component
  and \<open>.\<close> stay in the current directory, \<open>..\<close> goes to the parent (the root is
  its own parent), any other component enters the entry of that name. Symbolic links are
  not modelled. \<open>resolve\<close> gives the list of names from the root to the denoted entry.
\<close>

fun split_slash :: "string \<Rightarrow> string list" where
  "split_slash [] = [[]]"
| "split_slash (c # cs) =
     (if c = CHR ''/'' then [] # split_slash cs
      else (case split_slash cs of [] \<Rightarrow> [[c]] | x # xs \<Rightarrow> (c # x) # xs))"

definition walk :: "string list \<Rightarrow> string \<Rightarrow> string list" where
  "walk dir name =
     (if name = [] \<or> name = ''.'' then dir
      else if name = ''..'' then butlast dir
      else dir @ [name])"

definition resolve :: "string \<Rightarrow> string list" where
  "resolve p = foldl walk [] (split_slash p)"

text \<open>\<^verbatim>\<open>range(start, stop, step)\<close> for a positive step, as the list of its values.\<close>

function py_range :: "nat \<Rightarrow> nat \<Rightarrow> nat \<Rightarrow> nat list" where
  "py_range start stop step =
     (if step = 0 \<or> stop \<le> start then []
      else start # py_range (start + step) stop step)"
  by pat_completeness auto
termination
  by (relation "measure (\<lambda>(start, stop, step). stop - start)") auto

declare py_range.simps [simp del]

text \<open>\<^verbatim>\<open>str(n)\<close> for a natural number: its decimal digits.\<close>

function str_nat :: "nat \<Rightarrow> string" where
  "str_nat n =
     (if n < 10 then [char_of (48 + n)]
      else str_nat (n div 10) @ [char_of (48 + n mod 10)])"
  by pat_completeness auto
termination
  by (relation "measure id") auto

declare str_nat.simps [simp del]

subsection \<open>The browser UI: \<^verbatim>\<open>gradio_ui.py\<close>\<close>

text \<open>
  What \<^verbatim>\<open>requests.post\<close>, \<^verbatim>\<open>raise_for_status\<close> and \<^verbatim>\<open>response.json()\<close> give the UI:
  a 2xx response with the optional \<^verbatim>\<open>answer\<close> field of its body, a 4xx/5xx response
  with the optional \<^verbatim>\<open>detail\<close> field, or any other exception with its text.
\<close>

datatype ui_response =
    Success "string option"
  | HTTPError "string option"
  | RequestFailed string

text \<open>
  The typing loop of \<^verbatim>\<open>ask_question\<close>:
  \<^verbatim>\<open>for i in range(0, len(answer), 3): yield answer[:i+3]\<close>,
  as the list of the values it yields.
\<close>

definition typing_effect :: "'a list \<Rightarrow> 'a list list" where
  "typing_effect answer = map (\<lambda>i. take (i + 3) answer) (py_range 0 (length answer) 3)"

text \<open>
  The generator \<^verbatim>\<open>ask_question(question, history)\<close> of the UI, as the list of the
  strings it yields. The history argument is not read by the source.
\<close>

definition ui_ask_question :: "string \<Rightarrow> ui_response \<Rightarrow> string list" where
  "ui_ask_question question resp =
     (if question = [] then [''Please ask a question.'']
      else (case resp of
              Success a \<Rightarrow>
                typing_effect (case a of None \<Rightarrow> ''No answer received.'' | Some s \<Rightarrow> s)
            | HTTPError d \<Rightarrow>
                [''Server Error: '' @ (case d of None \<Rightarrow> ''Unknown server error'' | Some x \<Rightarrow> x)]
            | RequestFailed e \<Rightarrow> [''Error: '' @ e]))"

text \<open>
  \<^verbatim>\<open>handle_user_question\<close>: the chat history is a list of (question, reply) rows, the
  reply being \<^verbatim>\<open>None\<close> until a chunk arrives. The generator first yields the history
  with the new row, then once per chunk with the row's reply overwritten.
\<close>

type_synonym history = "(string \<times> string option) list"

definition handle_user_question ::
  "string \<Rightarrow> history \<Rightarrow> ui_response \<Rightarrow> (history \<times> string) list" where
  "handle_user_question question hist resp =
     (hist @ [(question, None)], '''') #
     map (\<lambda>chunk. (hist @ [(question, Some chunk)], ''''))
         (ui_ask_question question resp)"

subsection \<open>The service: exceptions, responses and the outside world\<close>

text \<open>
  Exceptions as values. \<open>ResourceExhausted\<close> carries \<^verbatim>\<open>e.message\<close>;
  \<open>HTTPException\<close> its status code and detail; \<open>OtherException\<close> is any other
  subclass of \<^verbatim>\<open>Exception\<close>, carrying \<^verbatim>\<open>str(e)\<close>; \<open>BaseExc\<close> is an exception
  outside \<^verbatim>\<open>Exception\<close> (a cancellation, an interrupt), which no
  \<^verbatim>\<open>except Exception\<close> clause catches.
\<close>

datatype exn =
    ResourceExhausted string
  | HTTPException nat string
  | OtherException string
  | BaseExc string

text \<open>The JSON bodies the handlers return: \<^verbatim>\<open>{"message": ...}\<close> and \<^verbatim>\<open>{"answer": ...}\<close>.\<close>

datatype response = Message string | Answer string

text \<open>
  The status the framework sends for a handler's outcome: 200 for a returned body, the
  code of a raised \<open>HTTPException\<close>, and 500 for any other exception that leaves the
  handler.
\<close>

fun status_code :: "exn + response \<Rightarrow> nat" where
  "status_code (Inr body) = 200"
| "status_code (Inl (HTTPException code detail)) = code"
| "status_code (Inl e) = 500"

type_synonym bytes = "8 word list"

text \<open>
  The file system: regular files with their contents and directories, found under the
  resolved path. \<^verbatim>\<open>TEMP_DIR\<close> is a directory made by \<^verbatim>\<open>tempfile.mkdtemp()\<close> at
  import time.
\<close>

datatype node = File bytes | Dir

type_synonym filesystem = "string list \<rightharpoonup> node"

record doc =
  page_content :: string
  metadata :: "(string \<times> string) list"

text \<open>
  A Chroma store is its collection: the name and the four parallel columns that
  \<^verbatim>\<open>_collection.add\<close> fills. A retrieval chain is built on one store.
\<close>

record chroma =
  col_name :: string
  col_ids :: "string list"
  col_embeddings :: "real list list"
  col_documents :: "string list"
  col_metadatas :: "(string \<times> string) list list"

record chain =
  retriever_db :: chroma

text \<open>The calls the service makes into the libraries and the external provider, as logged.\<close>

datatype ext_call =
    PyPDFLoader_load string
  | Split_documents "doc list"
  | Embeddings_init
  | Chroma_init string
  | Embed_documents "string list"
  | Collection_add string "string list" "real list list" "string list" "(string \<times> string) list list"
  | Rag_chain_init string
  | Chain_invoke string string

text \<open>
  Everything the libraries, the provider and the operating system decide is a parameter:
  each call either raises or returns. \<open>uuid4\<close> numbers the draws of
  \<^verbatim>\<open>uuid.uuid4()\<close>. \<open>open_error\<close> is a refusal of \<^verbatim>\<open>open\<close> for a reason the
  file-system model does not hold (permissions, name length, a null byte in the name)
  and \<open>copyfileobj_error\<close> a failure of the copy (a full disk); both are an
  \<^verbatim>\<open>OSError\<close> or a \<^verbatim>\<open>ValueError\<close>, given by their text.
\<close>

record env =
  temp_dir :: string
  open_error :: "string \<Rightarrow> string option"
  copyfileobj_error :: "string option"
  pdf_load :: "bytes \<Rightarrow> exn + doc list"
  split_documents :: "doc list \<Rightarrow> exn + doc list"
  embeddings_init :: "exn option"
  chroma_init :: "string \<Rightarrow> exn option"
  embed_documents :: "string list \<Rightarrow> exn + real list list"
  collection_add_error ::
    "string list \<Rightarrow> real list list \<Rightarrow> string list \<Rightarrow> (string \<times> string) list list \<Rightarrow> exn option"
  chain_init :: "chroma \<Rightarrow> exn option"
  chain_invoke :: "chain \<Rightarrow> string \<Rightarrow> exn + string option"
  uuid4 :: "nat \<Rightarrow> string"

text \<open>
  The state a request runs in: the file system, the two module globals
  \<^verbatim>\<open>vector_store\<close> and \<^verbatim>\<open>rag_chain\<close> (both \<^verbatim>\<open>None\<close> at start), the
  collections that the process-wide in-memory Chroma client holds under their names, the
  log of external calls and the number of UUIDs drawn so far.
\<close>

record world =
  fs :: filesystem
  vector_store :: "chroma option"
  rag_chain :: "chain option"
  collections :: "string \<rightharpoonup> chroma"
  calls :: "ext_call list"
  uuid_count :: nat

text \<open>The multipart part FastAPI hands to \<^verbatim>\<open>upload_document\<close>.\<close>

record upload_file =
  filename :: "string option"
  content_type :: "string option"
  content :: bytes

definition log_call :: "ext_call \<Rightarrow> world \<Rightarrow> world" where
  "log_call c w = w\<lparr>calls := calls w @ [c]\<rparr>"

subsection \<open>File operations of the upload handler\<close>

definition os_path_exists :: "filesystem \<Rightarrow> string \<Rightarrow> bool" where
  "os_path_exists f p = (f (resolve p) \<noteq> None)"

text \<open>
  \<^verbatim>\<open>open(p, "wb")\<close>: refused on a directory and where the parent is not a directory;
  otherwise the file exists and is empty afterwards.
\<close>

definition open_wb :: "env \<Rightarrow> filesystem \<Rightarrow> string \<Rightarrow> exn + filesystem" where
  "open_wb e f p =
     (case open_error e p of
        Some m \<Rightarrow> Inl (OtherException m)
      | None \<Rightarrow>
          (case f (resolve p) of
             Some Dir \<Rightarrow> Inl (OtherException ''[Errno 21] Is a directory'')
           | _ \<Rightarrow>
               (case f (butlast (resolve p)) of
                  Some Dir \<Rightarrow> Inr (f(resolve p \<mapsto> File []))
                | _ \<Rightarrow> Inl (OtherException ''[Errno 2] No such file or directory''))))"

text \<open>
  \<^verbatim>\<open>shutil.copyfileobj(file.file, f_out)\<close> on the file just opened: the upload's bytes
  are written, or the copy raises and the file stays as opened.
\<close>

definition copyfileobj :: "env \<Rightarrow> filesystem \<Rightarrow> string \<Rightarrow> bytes \<Rightarrow> exn option \<times> filesystem" where
  "copyfileobj e f p data =
     (case copyfileobj_error e of
        Some m \<Rightarrow> (Some (OtherException m), f)
      | None \<Rightarrow> (None, f(resolve p \<mapsto> File data)))"

text \<open>
  \<^verbatim>\<open>os.path.getsize\<close>. The handler reads it only on the path it has just written as a
  regular file; the size the operating system reports for a directory is not modelled.
\<close>

definition os_path_getsize :: "filesystem \<Rightarrow> string \<Rightarrow> exn + nat" where
  "os_path_getsize f p =
     (case f (resolve p) of
        Some (File data) \<Rightarrow> Inr (length data)
      | Some Dir \<Rightarrow> Inl (OtherException ''[Errno 21] Is a directory'')
      | None \<Rightarrow> Inl (OtherException ''[Errno 2] No such file or directory''))"

text \<open>\<^verbatim>\<open>os.remove\<close>: unlinks a regular file, raises on a directory or a missing path.\<close>

definition os_remove :: "filesystem \<Rightarrow> string \<Rightarrow> exn + filesystem" where
  "os_remove f p =
     (case f (resolve p) of
        Some (File data) \<Rightarrow> Inr (f(resolve p := None))
      | Some Dir \<Rightarrow> Inl (OtherException ''[Errno 21] Is a directory'')
      | None \<Rightarrow> Inl (OtherException ''[Errno 2] No such file or directory''))"

subsection \<open>The pipeline helpers\<close>

text \<open>
  \<^verbatim>\<open>load_and_split_pdf(file_path)\<close>: the loader reads the file, the splitter cuts the
  pages into chunks. The \<^verbatim>\<open>except Exception\<close> clause prints and re-raises, so an
  exception leaves the helper as it was raised. The three helpers read the uploaded file
  and write nothing to the file system.
\<close>

definition load_and_split_pdf :: "env \<Rightarrow> string \<Rightarrow> world \<Rightarrow> (exn + doc list) \<times> world" where
  "load_and_split_pdf e file_path w =
     (let w1 = log_call (PyPDFLoader_load file_path) w in
      case fs w (resolve file_path) of
        Some (File data) \<Rightarrow>
          (case pdf_load e data of
             Inl x \<Rightarrow> (Inl x, w1)
           | Inr pages \<Rightarrow>
               (let w2 = log_call (Split_documents pages) w1 in
                case split_documents e pages of
                  Inl x \<Rightarrow> (Inl x, w2)
                | Inr chunks \<Rightarrow> (Inr chunks, w2)))
      | _ \<Rightarrow> (Inl (OtherException (''File path '' @ file_path @ '' is not a valid file or url'')), w1))"

text \<open>
  The two operations of the vector index that the service uses. The \<^verbatim>\<open>Chroma\<close>
  constructor asks the client for the collection of the given name and creates it empty
  when there is none; \<^verbatim>\<open>_collection.add\<close> appends the four columns to the
  collection.
\<close>

definition get_or_create_collection :: "(string \<rightharpoonup> chroma) \<Rightarrow> string \<Rightarrow> chroma" where
  "get_or_create_collection held name =
     (case held name of
        Some c \<Rightarrow> c
      | None \<Rightarrow> \<lparr>col_name = name, col_ids = [], col_embeddings = [],
                  col_documents = [], col_metadatas = []\<rparr>)"

definition collection_add ::
  "chroma \<Rightarrow> string list \<Rightarrow> real list list \<Rightarrow> string list \<Rightarrow> (string \<times> string) list list \<Rightarrow> chroma" where
  "collection_add c ids embeddings documents metadatas =
     c\<lparr>col_ids := col_ids c @ ids,
       col_embeddings := col_embeddings c @ embeddings,
       col_documents := col_documents c @ documents,
       col_metadatas := col_metadatas c @ metadatas\<rparr>"

text \<open>
  \<^verbatim>\<open>create_vector_store(chunks)\<close>: the embeddings model is set up, the collection named
  \<^verbatim>\<open>pdf_chat_<uuid4>\<close> is obtained from the client, the chunk texts are embedded in
  one batch, one UUID is drawn per text, and the four columns are handed to
  \<^verbatim>\<open>_collection.add\<close>. The value returned, and later kept in the globals, is the
  collection as it stands after the call.
\<close>

definition create_vector_store :: "env \<Rightarrow> doc list \<Rightarrow> world \<Rightarrow> (exn + chroma) \<times> world" where
  "create_vector_store e chunks w =
     (let w1 = log_call Embeddings_init w in
      case embeddings_init e of
        Some x \<Rightarrow> (Inl x, w1)
      | None \<Rightarrow>
          (let name = ''pdf_chat_'' @ uuid4 e (uuid_count w1);
               w2 = log_call (Chroma_init name) (w1\<lparr>uuid_count := Suc (uuid_count w1)\<rparr>)
           in case chroma_init e name of
                Some x \<Rightarrow> (Inl x, w2)
              | None \<Rightarrow>
                  (let db = get_or_create_collection (collections w2) name;
                       documents = map page_content chunks;
                       w3 = log_call (Embed_documents documents)
                              (w2\<lparr>collections := (collections w2)(name \<mapsto> db)\<rparr>)
                   in case embed_documents e documents of
                        Inl x \<Rightarrow> (Inl x, w3)
                      | Inr embedded \<Rightarrow>
                          (let embeddings = map (\<lambda>v. v) embedded;
                               ids = map (uuid4 e) [uuid_count w3 ..< uuid_count w3 + length documents];
                               metadatas = map metadata chunks;
                               w4 = log_call (Collection_add name ids embeddings documents metadatas)
                                      (w3\<lparr>uuid_count := uuid_count w3 + length documents\<rparr>)
                           in case collection_add_error e ids embeddings documents metadatas of
                                Some x \<Rightarrow> (Inl x, w4)
                              | None \<Rightarrow>
                                  (let stored = collection_add db ids embeddings documents metadatas
                                   in (Inr stored,
                                       w4\<lparr>collections := (collections w4)(name \<mapsto> stored)\<rparr>))))))"

text \<open>
  \<^verbatim>\<open>create_rag_chain(db)\<close>: the model, the prompt, the document chain and the retriever
  are library constructions that raise or succeed as a whole; the chain keeps the store
  it retrieves from.
\<close>

definition create_rag_chain :: "env \<Rightarrow> chroma \<Rightarrow> world \<Rightarrow> (exn + chain) \<times> world" where
  "create_rag_chain e db w =
     (let w1 = log_call (Rag_chain_init (col_name db)) w in
      case chain_init e db of
        Some x \<Rightarrow> (Inl x, w1)
      | None \<Rightarrow> (Inr \<lparr>retriever_db = db\<rparr>, w1))"

subsection \<open>\<^verbatim>\<open>POST /upload\<close>\<close>

text \<open>
  The body of the \<^verbatim>\<open>try\<close> block of \<^verbatim>\<open>upload_document\<close>. It returns its outcome, the
  state it leaves and the value of the local \<^verbatim>\<open>file_path\<close>, which is still the empty
  string when \<^verbatim>\<open>file.filename\<close> is \<^verbatim>\<open>None\<close> and \<^verbatim>\<open>.replace\<close> raises.
  The two globals are assigned one after the other, each as soon as its helper returns.
\<close>

definition safe_filename :: "string \<Rightarrow> string" where
  "safe_filename name = replace_str ''/'' ''_'' (replace_str ''..'' ''_'' name)"

definition upload_try :: "env \<Rightarrow> upload_file \<Rightarrow> world \<Rightarrow> (exn + response) \<times> world \<times> string" where
  "upload_try e file w =
     (case filename file of
        None \<Rightarrow>
          (Inl (OtherException (CHR 0x27 # ''NoneType'' @ CHR 0x27 # '' object has no attribute ''
                                @ CHR 0x27 # ''replace'' @ [CHR 0x27])), w, [])
      | Some name \<Rightarrow>
          (let file_path = os_path_join (temp_dir e) (safe_filename name) in
           case open_wb e (fs w) file_path of
             Inl x \<Rightarrow> (Inl x, w, file_path)
           | Inr f1 \<Rightarrow>
               (case copyfileobj e f1 file_path (content file) of
                  (Some x, f2) \<Rightarrow> (Inl x, w\<lparr>fs := f2\<rparr>, file_path)
                | (None, f2) \<Rightarrow>
                    (let w2 = w\<lparr>fs := f2\<rparr> in
                     case os_path_getsize f2 file_path of
                       Inl x \<Rightarrow> (Inl x, w2, file_path)
                     | Inr file_size \<Rightarrow>
                         if file_size = 0
                         then (Inl (HTTPException 400 ''The uploaded PDF file is empty.''), w2, file_path)
                         else
                           (case load_and_split_pdf e file_path w2 of
                              (Inl x, w3) \<Rightarrow> (Inl x, w3, file_path)
                            | (Inr chunks, w3) \<Rightarrow>
                                (case create_vector_store e chunks w3 of
                                   (Inl x, w4) \<Rightarrow> (Inl x, w4, file_path)
                                 | (Inr db, w4) \<Rightarrow>
                                     (let w5 = w4\<lparr>vector_store := Some db\<rparr> in
                                      case create_rag_chain e db w5 of
                                        (Inl x, w6) \<Rightarrow> (Inl x, w6, file_path)
                                      | (Inr ch, w6) \<Rightarrow>
                                          (Inr (Message (''Successfully processed '' @ CHR 0x27 # name
                                                         @ CHR 0x27 # ''. Ready to answer questions.'')),
                                           w6\<lparr>rag_chain := Some ch\<rparr>, file_path))))))))"

text \<open>
  The \<^verbatim>\<open>except\<close> clauses of \<^verbatim>\<open>upload_document\<close>, in the source's order: a quota
  error becomes a 400, an \<open>HTTPException\<close> is re-raised, any other \<^verbatim>\<open>Exception\<close>
  becomes a 500.
\<close>

fun upload_except :: "exn \<Rightarrow> exn" where
  "upload_except (ResourceExhausted m) =
     HTTPException 400 (''Google API quota exceeded. Please check your plan. Error: '' @ m)"
| "upload_except (HTTPException code detail) = HTTPException code detail"
| "upload_except (OtherException m) = HTTPException 500 (''An unexpected error occurred: '' @ m)"
| "upload_except (BaseExc m) = BaseExc m"

text \<open>
  The \<^verbatim>\<open>finally\<close> clause: the file is removed when \<^verbatim>\<open>file_path\<close> is set and
  exists; an exception raised by \<^verbatim>\<open>os.remove\<close> replaces the pending outcome.
\<close>

definition upload_finally :: "(exn + response) \<Rightarrow> world \<Rightarrow> string \<Rightarrow> (exn + response) \<times> world" where
  "upload_finally r w file_path =
     (if file_path \<noteq> [] \<and> os_path_exists (fs w) file_path
      then (case os_remove (fs w) file_path of
              Inl x \<Rightarrow> (Inl x, w)
            | Inr f \<Rightarrow> (r, w\<lparr>fs := f\<rparr>))
      else (r, w))"

definition upload_document :: "env \<Rightarrow> upload_file \<Rightarrow> world \<Rightarrow> (exn + response) \<times> world" where
  "upload_document e file w =
     (if content_type file \<noteq> Some ''application/pdf''
      then (Inl (HTTPException 400 ''Invalid file type. Only PDFs are allowed.''), w)
      else (case upload_try e file w of
              (r, w1, file_path) \<Rightarrow>
                upload_finally (case r of Inl x \<Rightarrow> Inl (upload_except x) | Inr v \<Rightarrow> Inr v)
                               w1 file_path))"

text \<open>
  The store that line 206 assigns to \<^verbatim>\<open>vector_store\<close> in a request: what
  \<^verbatim>\<open>create_vector_store\<close> returns for the chunks of the saved file, and \<open>None\<close>
  when the request does not get that far (wrong content type, no filename, the file not
  saved or empty, or a failure of loading, splitting or store creation).
\<close>

definition created_store :: "env \<Rightarrow> upload_file \<Rightarrow> world \<Rightarrow> chroma option" where
  "created_store e file w =
     (if content_type file \<noteq> Some ''application/pdf'' then None
      else case filename file of
        None \<Rightarrow> None
      | Some name \<Rightarrow>
          (let file_path = os_path_join (temp_dir e) (safe_filename name) in
           case open_wb e (fs w) file_path of
             Inl x \<Rightarrow> None
           | Inr f1 \<Rightarrow>
               if copyfileobj_error e \<noteq> None \<or> content file = [] then None
               else (case load_and_split_pdf e file_path
                            (w\<lparr>fs := f1(resolve file_path \<mapsto> File (content file))\<rparr>) of
                       (Inl x, w3) \<Rightarrow> None
                     | (Inr chunks, w3) \<Rightarrow>
                         (case create_vector_store e chunks w3 of
                            (Inl x, w4) \<Rightarrow> None
                          | (Inr db, w4) \<Rightarrow> Some db))))"

subsection \<open>\<^verbatim>\<open>POST /ask\<close>\<close>

text \<open>
  The \<^verbatim>\<open>except\<close> clauses of \<^verbatim>\<open>ask_question\<close>: there is no re-raise of an
  \<open>HTTPException\<close> here, whose \<^verbatim>\<open>str\<close> is its code and detail.
\<close>

fun ask_except :: "exn \<Rightarrow> exn" where
  "ask_except (ResourceExhausted m) =
     HTTPException 400 (''Google API quota exceeded. Please check your plan. Error: '' @ m)"
| "ask_except (HTTPException code detail) =
     HTTPException 500 (''An unexpected error occurred: '' @ str_nat code @ '': '' @ detail)"
| "ask_except (OtherException m) = HTTPException 500 (''An unexpected error occurred: '' @ m)"
| "ask_except (BaseExc m) = BaseExc m"

definition ask_question :: "env \<Rightarrow> string \<Rightarrow> world \<Rightarrow> (exn + response) \<times> world" where
  "ask_question e question w =
     (case rag_chain w of
        None \<Rightarrow>
          (Inl (HTTPException 400
                  ''No document has been processed. Please upload a PDF to /upload first.''), w)
      | Some ch \<Rightarrow>
          (let w1 = log_call (Chain_invoke (col_name (retriever_db ch)) question) w in
           case chain_invoke e ch question of
             Inl x \<Rightarrow> (Inl (ask_except x), w1)
           | Inr reply \<Rightarrow>
               (Inr (Answer (case reply of None \<Rightarrow> ''No answer found.'' | Some a \<Rightarrow> a)), w1)))"

text \<open>The state of a freshly started process over a file system \<open>f\<close>.\<close>

definition initial_world :: "filesystem \<Rightarrow> world" where
  "initial_world f =
     \<lparr>fs = f, vector_store = None, rag_chain = None, collections = Map.empty,
      calls = [], uuid_count = 0\<rparr>"

subsection \<open>Requests in sequence\<close>

text \<open>
  Neither handler awaits, so the service runs one handler to its end before the next
  starts. A run is a list of requests, each with the environment that decides its
  external calls; \<open>upload_succeeded\<close> tells whether some upload of the run returned
  its success message.
\<close>

datatype request = Upload upload_file | Ask string

fun handle :: "env \<Rightarrow> request \<Rightarrow> world \<Rightarrow> (exn + response) \<times> world" where
  "handle e (Upload file) w = upload_document e file w"
| "handle e (Ask question) w = ask_question e question w"

fun serve :: "(env \<times> request) list \<Rightarrow> world \<Rightarrow> world" where
  "serve [] w = w"
| "serve ((e, rq) # rest) w = serve rest (snd (handle e rq w))"

fun upload_succeeded :: "(env \<times> request) list \<Rightarrow> world \<Rightarrow> bool" where
  "upload_succeeded [] w = False"
| "upload_succeeded ((e, rq) # rest) w =
     (case (rq, fst (handle e rq w)) of
        (Upload file, Inr v) \<Rightarrow> True
      | _ \<Rightarrow> upload_succeeded rest (snd (handle e rq w)))"

text \<open>
  An invariant of the process: every collection the client holds was named by an earlier
  draw of \<^verbatim>\<open>uuid.uuid4()\<close>, the draws being numbered by \<open>u\<close>.
\<close>

definition names_drawn :: "(nat \<Rightarrow> string) \<Rightarrow> world \<Rightarrow> bool" where
  "names_drawn u w =
     (\<forall>name. collections w name \<noteq> None \<longrightarrow> (\<exists>k<uuid_count w. name = ''pdf_chat_'' @ u k))"

subsection \<open>A concrete run\<close>

text \<open>
  A file system holding the temporary directory, a two-page document, and an
  environment in which every call succeeds: the embedding service returns one vector per
  text and the chain answers every question.
\<close>

definition demo_fs :: filesystem where
  "demo_fs = [[] \<mapsto> Dir, [''tmp''] \<mapsto> Dir, [''tmp'', ''pdfchat''] \<mapsto> Dir]"

definition demo_chunks :: "doc list" where
  "demo_chunks =
     [\<lparr>page_content = ''first page'', metadata = [(''page'', ''0'')]\<rparr>,
      \<lparr>page_content = ''second page'', metadata = [(''page'', ''1'')]\<rparr>]"

definition demo_env :: env where
  "demo_env =
     \<lparr>temp_dir = ''/tmp/pdfchat'',
      open_error = (\<lambda>p. None),
      copyfileobj_error = None,
      pdf_load = (\<lambda>data. Inr demo_chunks),
      split_documents = (\<lambda>pages. Inr pages),
      embeddings_init = None,
      chroma_init = (\<lambda>name. None),
      embed_documents = (\<lambda>texts. Inr (map (\<lambda>t. [real (length t), 1]) texts)),
      collection_add_error = (\<lambda>ids embeddings documents metadatas. None),
      chain_init = (\<lambda>db. None),
      chain_invoke = (\<lambda>ch question. Inr (Some ''forty-two'')),
      uuid4 = str_nat\<rparr>"

definition demo_file :: upload_file where
  "demo_file =
     \<lparr>filename = Some ''report.pdf'', content_type = Some ''application/pdf'',
      content = [37, 80, 68, 70]\<rparr>"

text \<open>
  Variants: an environment whose chain construction fails, one whose provider reports an
  exhausted quota on every embedding and generation call, an empty upload and an upload
  that is not a PDF; and the state after the successful upload of the document.
\<close>

definition chain_fail_env :: env where
  "chain_fail_env = demo_env\<lparr>chain_init := (\<lambda>db. Some (OtherException ''model not available''))\<rparr>"

definition quota_env :: env where
  "quota_env =
     demo_env\<lparr>embed_documents := (\<lambda>texts. Inl (ResourceExhausted ''429 quota'')),
              chain_invoke := (\<lambda>ch question. Inl (ResourceExhausted ''429 quota''))\<rparr>"

definition demo_empty_file :: upload_file where
  "demo_empty_file = demo_file\<lparr>content := []\<rparr>"

definition demo_text_file :: upload_file where
  "demo_text_file = demo_file\<lparr>filename := Some ''notes.txt'', content_type := Some ''text/plain''\<rparr>"

definition demo_db :: chroma where
  "demo_db =
     \<lparr>col_name = ''pdf_chat_0'', col_ids = [''1'', ''2''],
      col_embeddings = [[10, 1], [11, 1]],
      col_documents = [''first page'', ''second page''],
      col_metadatas = [[(''page'', ''0'')], [(''page'', ''1'')]]\<rparr>"

definition demo_ready_world :: world where
  "demo_ready_world = snd (upload_document demo_env demo_file (initial_world demo_fs))"

text \<open>
  A second document, uploaded after the first: its loader yields one page; and the same
  upload in an environment whose chain construction fails.
\<close>

definition second_chunks :: "doc list" where
  "second_chunks = [\<lparr>page_content = ''other page'', metadata = [(''page'', ''0'')]\<rparr>]"

definition second_env :: env where
  "second_env = demo_env\<lparr>pdf_load := (\<lambda>data. Inr second_chunks)\<rparr>"

definition second_chain_fail_env :: env where
  "second_chain_fail_env =
     second_env\<lparr>chain_init := (\<lambda>db. Some (OtherException ''model not available''))\<rparr>"

definition second_file :: upload_file where
  "second_file = demo_file\<lparr>filename := Some ''other.pdf''\<rparr>"

definition second_db :: chroma where
  "second_db =
     \<lparr>col_name = ''pdf_chat_3'', col_ids = [''4''],
      col_embeddings = [[10, 1]],
      col_documents = [''other page''],
      col_metadatas = [[(''page'', ''0'')]]\<rparr>"

text \<open>An environment whose provider fails with a connection error on every call.\<close>

definition generic_env :: env where
  "generic_env =
     demo_env\<lparr>embed_documents := (\<lambda>texts. Inl (OtherException ''connection reset'')),
              chain_invoke := (\<lambda>ch question. Inl (OtherException ''connection reset''))\<rparr>"

section \<open>Properties\<close>

subsection \<open>The typing effect of the UI\<close>

lemma py_range_bounds: "i \<in> set (py_range s n k) \<Longrightarrow> s \<le> i \<and> i < n"
proof (induction s n k rule: py_range.induct)
  case (1 start stop step)
  then show ?case
    by (subst (asm) (2) py_range.simps) (auto split: if_splits)
qed

lemma py_range_lengths_increasing:
  "sorted_wrt (<) (map (\<lambda>i. min (i + 3) n) (py_range s n 3))"
proof (induction s n "3::nat" rule: py_range.induct)
  case (1 start stop)
  show ?case
  proof (cases "stop \<le> start")
    case True
    then show ?thesis by (simp add: py_range.simps)
  next
    case False
    have "\<forall>i \<in> set (py_range (start + 3) stop 3). min (start + 3) stop < min (i + 3) stop"
      using py_range_bounds by fastforce
    with False 1 show ?thesis
      by (subst py_range.simps) auto
  qed
qed

lemma py_range_last:
  "s < n \<Longrightarrow> py_range s n 3 \<noteq> [] \<and> n \<le> last (py_range s n 3) + 3"
proof (induction s n "3::nat" rule: py_range.induct)
  case (1 start stop)
  show ?case
  proof (cases "start + 3 < stop")
    case True
    with 1 show ?thesis
      by (subst (1 2) py_range.simps) auto
  next
    case False
    then have "py_range (start + 3) stop 3 = []"
      by (simp add: py_range.simps)
    with 1 False show ?thesis
      by (subst (1 2) py_range.simps) auto
  qed
qed

lemma typing_effect_Nil: "typing_effect [] = []"
  by (simp add: typing_effect_def py_range.simps)

lemma typing_effect_prefixes: "y \<in> set (typing_effect answer) \<Longrightarrow> prefix y answer"
  by (auto simp: typing_effect_def take_is_prefix)

lemma typing_effect_increasing: "sorted_wrt (<) (map length (typing_effect answer))"
proof -
  have "map length (typing_effect answer)
        = map (\<lambda>i. min (i + 3) (length answer)) (py_range 0 (length answer) 3)"
    by (simp add: typing_effect_def comp_def min.commute)
  then show ?thesis
    by (simp add: py_range_lengths_increasing)
qed

lemma typing_effect_last:
  assumes "answer \<noteq> []"
  shows "typing_effect answer \<noteq> [] \<and> last (typing_effect answer) = answer"
proof -
  from assms have pos: "0 < length answer" by simp
  note r = py_range_last [OF pos]
  from r have ne: "typing_effect answer \<noteq> []"
    by (simp add: typing_effect_def)
  from r have "last (typing_effect answer) = take (last (py_range 0 (length answer) 3) + 3) answer"
    by (simp add: typing_effect_def last_map)
  with r ne show ?thesis by simp
qed

text \<open>
  Claim C10. For a non-empty question and a successful \<^verbatim>\<open>/ask\<close> response carrying a
  non-empty answer, the UI's \<^verbatim>\<open>ask_question\<close> generator yields at least one string,
  every yielded string is a prefix of the answer, the lengths of the yielded strings
  increase strictly, and the last one is the whole answer. For an empty answer it yields
  nothing, so \<^verbatim>\<open>handle_user_question\<close> yields only the history with the reply still
  \<^verbatim>\<open>None\<close>.
\<close>

theorem ui_typing_effect_prefixes:
  "question \<noteq> [] \<Longrightarrow>
   (answer \<noteq> [] \<longrightarrow>
      ui_ask_question question (Success (Some answer)) \<noteq> []
    \<and> (\<forall>y \<in> set (ui_ask_question question (Success (Some answer))). prefix y answer)
    \<and> sorted_wrt (<) (map length (ui_ask_question question (Success (Some answer))))
    \<and> last (ui_ask_question question (Success (Some answer))) = answer)
 \<and> ui_ask_question question (Success (Some [])) = []
 \<and> handle_user_question question hist (Success (Some [])) = [(hist @ [(question, None)], [])]"
  by (simp add: ui_ask_question_def handle_user_question_def typing_effect_Nil
      typing_effect_prefixes typing_effect_increasing typing_effect_last)

theorem ui_typing_effect_prefixes_witness:
  "''why'' \<noteq> [] \<and> ''abcdefg'' \<noteq> []
   \<and> ui_ask_question ''why'' (Success (Some ''abcdefg'')) = [''abc'', ''abcdef'', ''abcdefg'']
   \<and> sorted_wrt (<) (map length (ui_ask_question ''why'' (Success (Some ''abcdefg''))))
   \<and> last (ui_ask_question ''why'' (Success (Some ''abcdefg''))) = ''abcdefg''
   \<and> ui_ask_question ''why'' (Success (Some [])) = []"
  using ui_typing_effect_prefixes [of "''why''" "''abcdefg''" "[]"]
  by (simp add: ui_ask_question_def typing_effect_def py_range.simps)

subsection \<open>The sanitized filename\<close>

lemma replace_str_single:
  "replace_str [a] [b] s = map (\<lambda>c. if c = a then b else c) s"
  by (induction s) auto

lemma replace_dotdot_starts_dot:
  "prefix ''.'' (replace_str ''..'' ''_'' s) \<Longrightarrow> prefix ''.'' s"
  by (cases s) (auto split: if_splits)

lemma replace_dotdot_no_dotdot: "\<not> sublist ''..'' (replace_str ''..'' ''_'' s)"
proof (induction "''..''" "''_''" s rule: replace_str.induct)
  case 1
  show ?case by simp
next
  case (2 c cs)
  show ?case
  proof (cases "take (length ''..'') (c # cs) = ''..''")
    case True
    with 2 show ?thesis
      by (simp add: sublist_Cons_right)
  next
    case False
    have "\<not> prefix ''..'' (c # replace_str ''..'' ''_'' cs)"
    proof
      assume p: "prefix ''..'' (c # replace_str ''..'' ''_'' cs)"
      then have c: "c = CHR ''.''"
        by simp
      from p have "prefix ''.'' (replace_str ''..'' ''_'' cs)"
        by auto
      then have "prefix ''.'' cs"
        by (rule replace_dotdot_starts_dot)
      with c False show False
        by (cases cs) auto
    qed
    with False 2 show ?thesis
      by (simp add: sublist_Cons_right)
  qed
qed

lemma map_slash_dotdot:
  "sublist ''..'' (map (\<lambda>c. if c = CHR ''/'' then CHR ''_'' else c) s) \<Longrightarrow> sublist ''..'' s"
proof (induction s)
  case Nil
  then show ?case by simp
next
  case (Cons c cs)
  then show ?case
    by (cases cs) (auto simp: sublist_Cons_right split: if_splits)
qed

lemma map_slash_no_dotdot:
  "\<not> sublist ''..'' s \<Longrightarrow> \<not> sublist ''..'' (map (\<lambda>c. if c = CHR ''/'' then CHR ''_'' else c) s)"
  using map_slash_dotdot by blast

lemma safe_filename_no_slash: "CHR ''/'' \<notin> set (safe_filename name)"
  by (auto simp: safe_filename_def replace_str_single)

lemma safe_filename_no_dotdot: "\<not> sublist ''..'' (safe_filename name)"
  unfolding safe_filename_def replace_str_single
  by (rule map_slash_no_dotdot) (rule replace_dotdot_no_dotdot)

lemma split_slash_nonempty: "split_slash s \<noteq> []"
  by (induction s) (auto split: list.splits)

lemma split_slash_plain: "CHR ''/'' \<notin> set b \<Longrightarrow> split_slash b = [b]"
  by (induction b) auto

lemma split_slash_append_slash: "split_slash (a @ CHR ''/'' # b) = split_slash a @ split_slash b"
  using split_slash_nonempty by (induction a) (auto split: list.splits)

lemma resolve_Nil: "resolve [] = []"
  by (simp add: resolve_def walk_def)

lemma resolve_slash_plain:
  "CHR ''/'' \<notin> set b \<Longrightarrow> resolve (a @ CHR ''/'' # b) = walk (resolve a) b"
  by (simp add: resolve_def split_slash_append_slash split_slash_plain)

lemma resolve_plain: "CHR ''/'' \<notin> set b \<Longrightarrow> resolve b = walk [] b"
  by (simp add: resolve_def split_slash_plain)

lemma resolve_join_plain:
  assumes "CHR ''/'' \<notin> set b"
  shows "resolve (os_path_join a b) = walk (resolve a) b"
proof -
  from assms have nb: "\<not> (b \<noteq> [] \<and> hd b = CHR ''/'')"
    by (cases b) auto
  show ?thesis
  proof (cases "a = []")
    case True
    with nb assms show ?thesis
      by (simp add: os_path_join_def resolve_Nil resolve_plain)
  next
    case False
    show ?thesis
    proof (cases "last a = CHR ''/''")
      case True
      with False have a: "a = butlast a @ CHR ''/'' # []"
        by (metis append_butlast_last_id)
      have "resolve a = walk (resolve (butlast a)) []"
        by (subst a) (simp add: resolve_slash_plain)
      then have ra: "resolve a = resolve (butlast a)"
        by (simp add: walk_def)
      have "os_path_join a b = butlast a @ CHR ''/'' # b"
        using nb True False a by (simp add: os_path_join_def)
      with ra assms show ?thesis
        by (simp add: resolve_slash_plain)
    next
      case F2: False
      with False nb assms show ?thesis
        by (auto simp: os_path_join_def resolve_slash_plain)
    qed
  qed
qed

text \<open>
  Claim C9, as amended. For every uploaded filename, the sanitized name holds no \<open>/\<close>
  and no \<open>..\<close>, so the path joined with the temporary directory never leaves it: it
  resolves to the entry of that name directly inside the temporary directory, or to the
  temporary directory itself when the sanitized name is empty or \<open>.\<close>.
\<close>

theorem safe_filename_stays_in_temp_dir:
  "CHR ''/'' \<notin> set (safe_filename name)
   \<and> \<not> sublist ''..'' (safe_filename name)
   \<and> resolve (os_path_join tmp (safe_filename name))
       = (if safe_filename name = [] \<or> safe_filename name = ''.'' then resolve tmp
          else resolve tmp @ [safe_filename name])"
proof -
  have "safe_filename name \<noteq> ''..''"
    using safe_filename_no_dotdot [of name] by auto
  then show ?thesis
    by (simp add: safe_filename_no_slash safe_filename_no_dotdot resolve_join_plain walk_def)
qed

text \<open>
  The filename \<open>.\<close> passes the sanitizer unchanged, and the joined path then denotes
  the temporary directory itself, not an entry inside it.
\<close>

theorem safe_filename_dot_counterexample:
  "resolve (os_path_join ''/tmp/tmpk3'' (safe_filename ''.''))
     \<noteq> resolve ''/tmp/tmpk3'' @ [safe_filename ''.'']"
  by (simp add: safe_filename_def os_path_join_def resolve_def walk_def)

theorem safe_filename_stays_in_temp_dir_witness:
  "safe_filename ''../../etc/passwd'' = ''____etc_passwd''
   \<and> resolve (os_path_join ''/tmp/tmpk3'' (safe_filename ''../../etc/passwd''))
       = [''tmp'', ''tmpk3'', ''____etc_passwd'']
   \<and> resolve (os_path_join ''/tmp/tmpk3'' (safe_filename ''.'')) = [''tmp'', ''tmpk3'']"
  using safe_filename_stays_in_temp_dir [of "''../../etc/passwd''" "''/tmp/tmpk3''"]
  by (simp add: safe_filename_def os_path_join_def resolve_def walk_def)

subsection \<open>The paths through the upload handler\<close>

lemma log_call_fields [simp]:
  "fs (log_call c w) = fs w"
  "vector_store (log_call c w) = vector_store w"
  "rag_chain (log_call c w) = rag_chain w"
  "uuid_count (log_call c w) = uuid_count w"
  "collections (log_call c w) = collections w"
  "calls (log_call c w) = calls w @ [c]"
  by (simp_all add: log_call_def)

lemma load_and_split_pdf_frame:
  "fs (snd (load_and_split_pdf e p w)) = fs w"
  "vector_store (snd (load_and_split_pdf e p w)) = vector_store w"
  "rag_chain (snd (load_and_split_pdf e p w)) = rag_chain w"
  by (simp_all add: load_and_split_pdf_def Let_def split: option.splits node.splits sum.splits)

lemma create_vector_store_frame:
  "fs (snd (create_vector_store e chunks w)) = fs w"
  "vector_store (snd (create_vector_store e chunks w)) = vector_store w"
  "rag_chain (snd (create_vector_store e chunks w)) = rag_chain w"
  by (simp_all add: create_vector_store_def Let_def split: option.splits sum.splits)

lemma create_rag_chain_frame:
  "fs (snd (create_rag_chain e db w)) = fs w"
  "vector_store (snd (create_rag_chain e db w)) = vector_store w"
  "rag_chain (snd (create_rag_chain e db w)) = rag_chain w"
  by (simp_all add: create_rag_chain_def Let_def split: option.splits sum.splits)

lemma create_rag_chain_result:
  "fst (create_rag_chain e db w) = Inr ch \<Longrightarrow> ch = \<lparr>retriever_db = db\<rparr>"
  "fst (create_rag_chain e db w) = Inl x \<Longrightarrow> chain_init e db = Some x"
  by (simp_all add: create_rag_chain_def Let_def split: option.splits)


lemma upload_try_cases [consumes 1, case_names no_name open_failed copy_failed empty_file
    load_failed store_failed chain_failed ok]:
  assumes "upload_try e file w = (r, w', p)"
  obtains
    "filename file = None" "p = []" "w' = w" "\<exists>m. r = Inl (OtherException m)"
  | name x where "filename file = Some name"
      "p = os_path_join (temp_dir e) (safe_filename name)"
      "open_wb e (fs w) p = Inl x" "r = Inl x" "w' = w"
  | name f1 m where "filename file = Some name"
      "p = os_path_join (temp_dir e) (safe_filename name)"
      "open_wb e (fs w) p = Inr f1" "copyfileobj_error e = Some m"
      "r = Inl (OtherException m)" "w' = w\<lparr>fs := f1\<rparr>"
  | name f1 where "filename file = Some name"
      "p = os_path_join (temp_dir e) (safe_filename name)"
      "open_wb e (fs w) p = Inr f1" "copyfileobj_error e = None" "content file = []"
      "r = Inl (HTTPException 400 ''The uploaded PDF file is empty.'')"
      "w' = w\<lparr>fs := f1(resolve p \<mapsto> File [])\<rparr>"
  | name f1 x where "filename file = Some name"
      "p = os_path_join (temp_dir e) (safe_filename name)"
      "open_wb e (fs w) p = Inr f1" "copyfileobj_error e = None" "content file \<noteq> []"
      "load_and_split_pdf e p (w\<lparr>fs := f1(resolve p \<mapsto> File (content file))\<rparr>) = (Inl x, w')"
      "r = Inl x"
  | name f1 chunks w3 x where "filename file = Some name"
      "p = os_path_join (temp_dir e) (safe_filename name)"
      "open_wb e (fs w) p = Inr f1" "copyfileobj_error e = None" "content file \<noteq> []"
      "load_and_split_pdf e p (w\<lparr>fs := f1(resolve p \<mapsto> File (content file))\<rparr>) = (Inr chunks, w3)"
      "create_vector_store e chunks w3 = (Inl x, w')"
      "r = Inl x"
  | name f1 chunks w3 db w4 x where "filename file = Some name"
      "p = os_path_join (temp_dir e) (safe_filename name)"
      "open_wb e (fs w) p = Inr f1" "copyfileobj_error e = None" "content file \<noteq> []"
      "load_and_split_pdf e p (w\<lparr>fs := f1(resolve p \<mapsto> File (content file))\<rparr>) = (Inr chunks, w3)"
      "create_vector_store e chunks w3 = (Inr db, w4)"
      "create_rag_chain e db (w4\<lparr>vector_store := Some db\<rparr>) = (Inl x, w')"
      "r = Inl x"
  | name f1 chunks w3 db w4 ch w6 where "filename file = Some name"
      "p = os_path_join (temp_dir e) (safe_filename name)"
      "open_wb e (fs w) p = Inr f1" "copyfileobj_error e = None" "content file \<noteq> []"
      "load_and_split_pdf e p (w\<lparr>fs := f1(resolve p \<mapsto> File (content file))\<rparr>) = (Inr chunks, w3)"
      "create_vector_store e chunks w3 = (Inr db, w4)"
      "create_rag_chain e db (w4\<lparr>vector_store := Some db\<rparr>) = (Inr ch, w6)"
      "r = Inr (Message (''Successfully processed '' @ CHR 0x27 # name
                          @ CHR 0x27 # ''. Ready to answer questions.''))"
      "w' = w6\<lparr>rag_chain := Some ch\<rparr>"
proof (cases "filename file")
  case None
  with assms have "p = []" "w' = w" "\<exists>m. r = Inl (OtherException m)"
    by (auto simp: upload_try_def)
  with None show thesis by (rule that(1))
next
  case (Some name)
  define p0 where "p0 = os_path_join (temp_dir e) (safe_filename name)"
  note defs = upload_try_def Let_def copyfileobj_def os_path_getsize_def
  show thesis
  proof (cases "open_wb e (fs w) p0")
    case (Inl x)
    with assms Some have "p = p0" "r = Inl x" "w' = w"
      by (auto simp: defs p0_def)
    with Some Inl show thesis
      unfolding p0_def by (intro that(2)) auto
  next
    case (Inr f1)
    show thesis
    proof (cases "copyfileobj_error e")
      case (Some m)
      with assms \<open>filename file = Some name\<close> Inr
      have "p = p0" "r = Inl (OtherException m)" "w' = w\<lparr>fs := f1\<rparr>"
        by (auto simp: defs p0_def)
      with \<open>filename file = Some name\<close> Inr Some show thesis
        unfolding p0_def by (intro that(3)) auto
    next
      case None
      show thesis
      proof (cases "content file = []")
        case True
        with assms \<open>filename file = Some name\<close> Inr None
        have "p = p0" "r = Inl (HTTPException 400 ''The uploaded PDF file is empty.'')"
          "w' = w\<lparr>fs := f1(resolve p0 \<mapsto> File [])\<rparr>"
          by (auto simp: defs p0_def)
        with \<open>filename file = Some name\<close> Inr None True show thesis
          unfolding p0_def by (intro that(4)) auto
      next
        case False
        define w2 where "w2 = w\<lparr>fs := f1(resolve p0 \<mapsto> File (content file))\<rparr>"
        obtain r3 w3 where l: "load_and_split_pdf e p0 w2 = (r3, w3)"
          by (cases "load_and_split_pdf e p0 w2")
        have step: "upload_try e file w =
          (case load_and_split_pdf e p0 w2 of
             (Inl x, w3) \<Rightarrow> (Inl x, w3, p0)
           | (Inr chunks, w3) \<Rightarrow>
               (case create_vector_store e chunks w3 of
                  (Inl x, w4) \<Rightarrow> (Inl x, w4, p0)
                | (Inr db, w4) \<Rightarrow>
                    (case create_rag_chain e db (w4\<lparr>vector_store := Some db\<rparr>) of
                       (Inl x, w6) \<Rightarrow> (Inl x, w6, p0)
                     | (Inr ch, w6) \<Rightarrow>
                         (Inr (Message (''Successfully processed '' @ CHR 0x27 # name
                                        @ CHR 0x27 # ''. Ready to answer questions.'')),
                          w6\<lparr>rag_chain := Some ch\<rparr>, p0))))"
          using \<open>filename file = Some name\<close> Inr None False
          unfolding p0_def w2_def defs by simp
        show thesis
        proof (cases r3)
          case (Inl x)
          with assms step l have "p = p0" "r = Inl x" "w' = w3" by auto
          with \<open>filename file = Some name\<close> Inr None False l Inl show thesis
            unfolding p0_def w2_def by (intro that(5)) auto
        next
          case chunks: (Inr chunks)
          obtain r4 w4 where c: "create_vector_store e chunks w3 = (r4, w4)"
            by (cases "create_vector_store e chunks w3")
          show thesis
          proof (cases r4)
            case (Inl x)
            with assms step l chunks c have "p = p0" "r = Inl x" "w' = w4" by auto
            with \<open>filename file = Some name\<close> Inr None False l chunks c Inl show thesis
              unfolding p0_def w2_def by (intro that(6)) auto
          next
            case db: (Inr db)
            obtain r6 w6 where g: "create_rag_chain e db (w4\<lparr>vector_store := Some db\<rparr>) = (r6, w6)"
              by (cases "create_rag_chain e db (w4\<lparr>vector_store := Some db\<rparr>)")
            show thesis
            proof (cases r6)
              case (Inl x)
              with assms step l chunks c db g have "p = p0" "r = Inl x" "w' = w6" by auto
              with \<open>filename file = Some name\<close> Inr None False l chunks c db g Inl show thesis
                unfolding p0_def w2_def by (intro that(7)) auto
            next
              case ch: (Inr ch)
              with assms step l chunks c db g have "p = p0"
                "r = Inr (Message (''Successfully processed '' @ CHR 0x27 # name
                                        @ CHR 0x27 # ''. Ready to answer questions.''))"
                "w' = w6\<lparr>rag_chain := Some ch\<rparr>" by auto
              with \<open>filename file = Some name\<close> Inr None False l chunks c db g ch show thesis
                unfolding p0_def w2_def by (intro that(8)) auto
            qed
          qed
        qed
      qed
    qed
  qed
qed

lemma load_and_split_pdf_frameD:
  "load_and_split_pdf e p w = (r, w') \<Longrightarrow>
   fs w' = fs w \<and> vector_store w' = vector_store w \<and> rag_chain w' = rag_chain w"
  using load_and_split_pdf_frame [of e p w] by simp

lemma create_vector_store_frameD:
  "create_vector_store e chunks w = (r, w') \<Longrightarrow>
   fs w' = fs w \<and> vector_store w' = vector_store w \<and> rag_chain w' = rag_chain w"
  using create_vector_store_frame [of e chunks w] by simp

lemma create_rag_chain_frameD:
  "create_rag_chain e db w = (r, w') \<Longrightarrow>
   fs w' = fs w \<and> vector_store w' = vector_store w \<and> rag_chain w' = rag_chain w"
  using create_rag_chain_frame [of e db w] by simp

lemma open_wb_Inr:
  assumes "open_wb e f p = Inr f1"
  shows "f1 = f(resolve p \<mapsto> File [])" and "p \<noteq> []"
proof -
  from assms show "f1 = f(resolve p \<mapsto> File [])"
    by (auto simp: open_wb_def split: option.splits node.splits)
  show "p \<noteq> []"
  proof
    assume "p = []"
    then have "resolve p = []" by (simp add: resolve_Nil)
    with assms show False
      by (auto simp: open_wb_def split: option.splits node.splits)
  qed
qed

lemma open_wb_Inl: "open_wb e f p = Inl x \<Longrightarrow> \<exists>m. x = OtherException m"
  by (auto simp: open_wb_def split: option.splits node.splits)

lemma upload_finally_file:
  "fs w (resolve p) = Some (File d) \<Longrightarrow> p \<noteq> [] \<Longrightarrow>
   upload_finally r w p = (r, w\<lparr>fs := (fs w)(resolve p := None)\<rparr>)"
  by (simp add: upload_finally_def os_path_exists_def os_remove_def)

lemma upload_finally_session:
  "vector_store (snd (upload_finally r w p)) = vector_store w"
  "rag_chain (snd (upload_finally r w p)) = rag_chain w"
  "calls (snd (upload_finally r w p)) = calls w"
  by (simp_all add: upload_finally_def split: sum.splits)

lemma upload_finally_Inr:
  "fst (upload_finally r w p) = Inr v \<Longrightarrow> r = Inr v"
  by (auto simp: upload_finally_def split: sum.splits if_splits)

text \<open>Once the file is opened, the try body leaves a regular file at the path.\<close>

lemma upload_try_saved:
  assumes t: "upload_try e file w = (r, w1, p)"
    and n: "filename file = Some name"
    and o: "open_wb e (fs w) (os_path_join (temp_dir e) (safe_filename name)) = Inr f1"
  shows "p = os_path_join (temp_dir e) (safe_filename name)" and "p \<noteq> []"
    and "\<exists>d. fs w1 (resolve p) = Some (File d)"
    and "(fs w1)(resolve p := None) = (fs w)(resolve p := None)"
proof -
  from t n show p: "p = os_path_join (temp_dir e) (safe_filename name)"
    by (cases rule: upload_try_cases) auto
  from o p have f1: "f1 = (fs w)(resolve p \<mapsto> File [])" and ne: "p \<noteq> []"
    by (auto dest: open_wb_Inr)
  from ne show "p \<noteq> []" .
  have "(\<exists>d. fs w1 (resolve p) = Some (File d)) \<and> (fs w1)(resolve p := None) = (fs w)(resolve p := None)"
    using t
  proof (cases rule: upload_try_cases)
    case no_name
    with n show ?thesis by simp
  next
    case (open_failed name' x)
    with n o show ?thesis by simp
  next
    case (copy_failed name' f1' m)
    with n o f1 show ?thesis by auto
  next
    case (empty_file name' f1')
    with n o f1 show ?thesis by auto
  next
    case (load_failed name' f1' x)
    from load_and_split_pdf_frameD [OF load_failed(6)] load_failed n o f1 show ?thesis
      by auto
  next
    case (store_failed name' f1' chunks w3 x)
    from load_and_split_pdf_frameD [OF store_failed(6)]
      create_vector_store_frameD [OF store_failed(7)] store_failed n o f1
    show ?thesis by auto
  next
    case (chain_failed name' f1' chunks w3 db w4 x)
    from load_and_split_pdf_frameD [OF chain_failed(6)]
      create_vector_store_frameD [OF chain_failed(7)]
      create_rag_chain_frameD [OF chain_failed(8)] chain_failed n o f1
    show ?thesis by auto
  next
    case (ok name' f1' chunks w3 db w4 ch w6)
    from load_and_split_pdf_frameD [OF ok(6)]
      create_vector_store_frameD [OF ok(7)]
      create_rag_chain_frameD [OF ok(8)] ok n o f1
    show ?thesis by auto
  qed
  then show "\<exists>d. fs w1 (resolve p) = Some (File d)"
    and "(fs w1)(resolve p := None) = (fs w)(resolve p := None)"
    by simp_all
qed

lemma upload_try_session:
  assumes t: "upload_try e file w = (r, w1, p)"
  shows "r = Inl x \<Longrightarrow> rag_chain w1 = rag_chain w"
    and "r = Inl x \<Longrightarrow> vector_store w1 = vector_store w
           \<or> (\<exists>db. vector_store w1 = Some db \<and> chain_init e db = Some x)"
    and "r = Inr v \<Longrightarrow> \<exists>db. vector_store w1 = Some db \<and> rag_chain w1 = Some \<lparr>retriever_db = db\<rparr>"
proof -
  have "(r = Inl x \<longrightarrow> rag_chain w1 = rag_chain w
           \<and> (vector_store w1 = vector_store w
               \<or> (\<exists>db. vector_store w1 = Some db \<and> chain_init e db = Some x)))
      \<and> (r = Inr v \<longrightarrow> (\<exists>db. vector_store w1 = Some db \<and> rag_chain w1 = Some \<lparr>retriever_db = db\<rparr>))"
    using t
  proof (cases rule: upload_try_cases)
    case no_name
    then show ?thesis by auto
  next
    case (open_failed name y)
    then show ?thesis by auto
  next
    case (copy_failed name f1 m)
    then show ?thesis by auto
  next
    case (empty_file name f1)
    then show ?thesis by auto
  next
    case (load_failed name f1 y)
    from load_and_split_pdf_frameD [OF load_failed(6)] load_failed(7) show ?thesis
      by auto
  next
    case (store_failed name f1 chunks w3 y)
    from load_and_split_pdf_frameD [OF store_failed(6)]
      create_vector_store_frameD [OF store_failed(7)] store_failed(8)
    show ?thesis by auto
  next
    case (chain_failed name f1 chunks w3 db w4 y)
    from chain_failed(8) have "chain_init e db = Some y"
      using create_rag_chain_result(2) [of e db "w4\<lparr>vector_store := Some db\<rparr>" y] by simp
    with load_and_split_pdf_frameD [OF chain_failed(6)]
      create_vector_store_frameD [OF chain_failed(7)]
      create_rag_chain_frameD [OF chain_failed(8)] chain_failed(9)
    show ?thesis by auto
  next
    case (ok name f1 chunks w3 db w4 ch w6)
    from ok(8) have "ch = \<lparr>retriever_db = db\<rparr>"
      using create_rag_chain_result(1) [of e db "w4\<lparr>vector_store := Some db\<rparr>" ch] by simp
    with create_rag_chain_frameD [OF ok(8)] ok(9,10)
    show ?thesis by auto
  qed
  then show "r = Inl x \<Longrightarrow> rag_chain w1 = rag_chain w"
    and "r = Inl x \<Longrightarrow> vector_store w1 = vector_store w
           \<or> (\<exists>db. vector_store w1 = Some db \<and> chain_init e db = Some x)"
    and "r = Inr v \<Longrightarrow> \<exists>db. vector_store w1 = Some db \<and> rag_chain w1 = Some \<lparr>retriever_db = db\<rparr>"
    by simp_all
qed

text \<open>A try body that ends in anything but an OSError-like exception has saved the file.\<close>

lemma upload_try_reached_size_check:
  assumes t: "upload_try e file w = (r, w1, p)" and r: "\<forall>m. r \<noteq> Inl (OtherException m)"
  shows "p \<noteq> [] \<and> (\<exists>d. fs w1 (resolve p) = Some (File d))"
  using t
proof (cases rule: upload_try_cases)
  case no_name
  with r show ?thesis by auto
next
  case (open_failed name x)
  with r open_wb_Inl [OF open_failed(3)] show ?thesis by auto
next
  case (copy_failed name f1 m)
  with r show ?thesis by auto
next
  case (empty_file name f1)
  from upload_try_saved [OF t empty_file(1)] empty_file(2,3) show ?thesis by auto
next
  case (load_failed name f1 x)
  from upload_try_saved [OF t load_failed(1)] load_failed(2,3) show ?thesis by auto
next
  case (store_failed name f1 chunks w3 x)
  from upload_try_saved [OF t store_failed(1)] store_failed(2,3) show ?thesis by auto
next
  case (chain_failed name f1 chunks w3 db w4 x)
  from upload_try_saved [OF t chain_failed(1)] chain_failed(2,3) show ?thesis by auto
next
  case (ok name f1 chunks w3 db w4 ch w6)
  from upload_try_saved [OF t ok(1)] ok(2,3) show ?thesis by auto
qed

lemma upload_document_pdf:
  assumes "content_type file = Some ''application/pdf''" and "upload_try e file w = (r, w1, p)"
  shows "upload_document e file w =
           upload_finally (case r of Inl x \<Rightarrow> Inl (upload_except x) | Inr v \<Rightarrow> Inr v) w1 p"
  using assms by (simp add: upload_document_def)

lemma upload_document_saved:
  assumes c: "content_type file = Some ''application/pdf''"
    and t: "upload_try e file w = (r, w1, p)"
    and s: "p \<noteq> []" "fs w1 (resolve p) = Some (File d)"
  shows "upload_document e file w =
           (case r of Inl x \<Rightarrow> Inl (upload_except x) | Inr v \<Rightarrow> Inr v,
            w1\<lparr>fs := (fs w1)(resolve p := None)\<rparr>)"
  using upload_document_pdf [OF c t] upload_finally_file [OF s(2,1)] by simp

subsection \<open>The concrete runs, evaluated\<close>

lemmas run_defs =
  get_or_create_collection_def collection_add_def demo_env_def demo_file_def demo_fs_def demo_chunks_def initial_world_def
  upload_document_def upload_try_def Let_def safe_filename_def os_path_join_def
  open_wb_def copyfileobj_def os_path_getsize_def resolve_def walk_def
  load_and_split_pdf_def create_vector_store_def create_rag_chain_def log_call_def
  upload_finally_def os_path_exists_def os_remove_def

lemma char_of_digits:
  "char_of (48::nat) = CHR ''0''" "char_of (49::nat) = CHR ''1''" "char_of (50::nat) = CHR ''2''"
  "char_of (51::nat) = CHR ''3''" "char_of (52::nat) = CHR ''4''" "char_of (53::nat) = CHR ''5''"
  by code_simp+

lemma demo_upload_run:
  "upload_document demo_env demo_file (initial_world demo_fs) =
     (Inr (Message (''Successfully processed '' @ CHR 0x27 # ''report.pdf''
                    @ CHR 0x27 # ''. Ready to answer questions.'')),
      \<lparr>fs = demo_fs([''tmp'', ''pdfchat'', ''report.pdf''] := None),
       vector_store = Some demo_db,
       rag_chain = Some \<lparr>retriever_db = demo_db\<rparr>,
       collections = [''pdf_chat_0'' \<mapsto> demo_db],
       calls = [PyPDFLoader_load ''/tmp/pdfchat/report.pdf'',
                Split_documents demo_chunks,
                Embeddings_init, Chroma_init ''pdf_chat_0'',
                Embed_documents [''first page'', ''second page''],
                Collection_add ''pdf_chat_0'' [''1'', ''2''] [[10, 1], [11, 1]]
                  [''first page'', ''second page'']
                  [[(''page'', ''0'')], [(''page'', ''1'')]],
                Rag_chain_init ''pdf_chat_0''],
       uuid_count = 3\<rparr>)"
  by (simp add: run_defs demo_db_def str_nat.simps char_of_digits)

lemma quota_upload_run:
  "upload_document quota_env demo_file (initial_world demo_fs) =
     (Inl (HTTPException 400 ''Google API quota exceeded. Please check your plan. Error: 429 quota''),
      \<lparr>fs = demo_fs([''tmp'', ''pdfchat'', ''report.pdf''] := None),
       vector_store = None,
       rag_chain = None,
       collections = [''pdf_chat_0'' \<mapsto> \<lparr>col_name = ''pdf_chat_0'', col_ids = [],
                        col_embeddings = [], col_documents = [], col_metadatas = []\<rparr>],
       calls = [PyPDFLoader_load ''/tmp/pdfchat/report.pdf'',
                Split_documents demo_chunks,
                Embeddings_init, Chroma_init ''pdf_chat_0'',
                Embed_documents [''first page'', ''second page'']],
       uuid_count = 1\<rparr>)"
  by (simp add: quota_env_def run_defs str_nat.simps char_of_digits)

lemma chain_fail_upload_run:
  "upload_document chain_fail_env demo_file (initial_world demo_fs) =
     (Inl (HTTPException 500 ''An unexpected error occurred: model not available''),
      \<lparr>fs = demo_fs([''tmp'', ''pdfchat'', ''report.pdf''] := None),
       vector_store = Some demo_db,
       rag_chain = None,
       collections = [''pdf_chat_0'' \<mapsto> demo_db],
       calls = [PyPDFLoader_load ''/tmp/pdfchat/report.pdf'',
                Split_documents demo_chunks,
                Embeddings_init, Chroma_init ''pdf_chat_0'',
                Embed_documents [''first page'', ''second page''],
                Collection_add ''pdf_chat_0'' [''1'', ''2''] [[10, 1], [11, 1]]
                  [''first page'', ''second page'']
                  [[(''page'', ''0'')], [(''page'', ''1'')]],
                Rag_chain_init ''pdf_chat_0''],
       uuid_count = 3\<rparr>)"
  by (simp add: chain_fail_env_def run_defs demo_db_def str_nat.simps char_of_digits)

lemma quota_try_run:
  "fst (upload_try quota_env demo_file (initial_world demo_fs)) = Inl (ResourceExhausted ''429 quota'')"
  by (simp add: quota_env_def run_defs str_nat.simps char_of_digits)

lemma demo_path:
  "os_path_join (temp_dir demo_env) (safe_filename ''report.pdf'') = ''/tmp/pdfchat/report.pdf''"
  "os_path_join (temp_dir quota_env) (safe_filename ''report.pdf'') = ''/tmp/pdfchat/report.pdf''"
  "resolve ''/tmp/pdfchat/report.pdf'' = [''tmp'', ''pdfchat'', ''report.pdf'']"
  by (simp_all add: quota_env_def demo_env_def os_path_join_def safe_filename_def resolve_def walk_def)

lemma demo_open:
  "open_wb demo_env demo_fs ''/tmp/pdfchat/report.pdf''
     = Inr (demo_fs([''tmp'', ''pdfchat'', ''report.pdf''] \<mapsto> File []))"
  "open_wb quota_env demo_fs ''/tmp/pdfchat/report.pdf''
     = Inr (demo_fs([''tmp'', ''pdfchat'', ''report.pdf''] \<mapsto> File []))"
  by (simp_all add: quota_env_def demo_env_def open_wb_def demo_path demo_fs_def)

subsection \<open>The session across an upload\<close>

lemma upload_document_session:
  assumes u: "upload_document e file w = (r, w')"
  shows "(\<forall>x. r = Inl x \<longrightarrow>
            rag_chain w' = rag_chain w
          \<and> (vector_store w' = vector_store w
             \<or> (\<exists>db y. vector_store w' = Some db \<and> chain_init e db = Some y)))
       \<and> (\<forall>v. r = Inr v \<longrightarrow>
            (\<exists>db. vector_store w' = Some db \<and> rag_chain w' = Some \<lparr>retriever_db = db\<rparr>))"
proof (cases "content_type file = Some ''application/pdf''")
  case False
  with u show ?thesis by (auto simp: upload_document_def)
next
  case True
  obtain rt w1 p where t: "upload_try e file w = (rt, w1, p)"
    by (cases "upload_try e file w")
  let ?rt = "case rt of Inl x \<Rightarrow> Inl (upload_except x) | Inr v \<Rightarrow> Inr v"
  from u upload_document_pdf [OF True t] have f: "upload_finally ?rt w1 p = (r, w')"
    by simp
  from f upload_finally_session [of ?rt w1 p]
  have sess: "vector_store w' = vector_store w1" "rag_chain w' = rag_chain w1"
    by simp_all
  show ?thesis
  proof (cases rt)
    case (Inl x)
    from f have "fst (upload_finally ?rt w1 p) = r"
      by simp
    with Inl have "\<exists>y. r = Inl y"
      using upload_finally_Inr [of ?rt w1 p] by (cases r) auto
    with upload_try_session(1,2) [OF t Inl] sess show ?thesis
      by auto
  next
    case (Inr v)
    with t have "\<forall>m. rt \<noteq> Inl (OtherException m)" by simp
    from upload_try_reached_size_check [OF t this] obtain d
      where "p \<noteq> []" "fs w1 (resolve p) = Some (File d)" by blast
    from upload_finally_file [OF this(2,1), of ?rt] f Inr have "r = Inr v"
      by simp
    with upload_try_session(3) [OF t Inr] sess show ?thesis
      by auto
  qed
qed

lemma load_and_split_pdf_frame2:
  "load_and_split_pdf e p w = (r, w') \<Longrightarrow>
   collections w' = collections w \<and> uuid_count w' = uuid_count w"
  by (auto simp: load_and_split_pdf_def Let_def log_call_def split: option.splits node.splits sum.splits)

lemma create_rag_chain_frame2:
  "create_rag_chain e db w = (r, w') \<Longrightarrow>
   collections w' = collections w \<and> uuid_count w' = uuid_count w"
  by (auto simp: create_rag_chain_def Let_def log_call_def split: option.splits)

lemma upload_try_pipeline:
  assumes n: "filename file = Some name"
    and o: "open_wb e (fs w) (os_path_join (temp_dir e) (safe_filename name)) = Inr f1"
    and k: "copyfileobj_error e = None"
    and z: "content file \<noteq> []"
  shows "upload_try e file w =
          (case load_and_split_pdf e (os_path_join (temp_dir e) (safe_filename name))
                  (w\<lparr>fs := f1(resolve (os_path_join (temp_dir e) (safe_filename name))
                               \<mapsto> File (content file))\<rparr>) of
             (Inl x, w3) \<Rightarrow> (Inl x, w3, os_path_join (temp_dir e) (safe_filename name))
           | (Inr chunks, w3) \<Rightarrow>
               (case create_vector_store e chunks w3 of
                  (Inl x, w4) \<Rightarrow> (Inl x, w4, os_path_join (temp_dir e) (safe_filename name))
                | (Inr db, w4) \<Rightarrow>
                    (case create_rag_chain e db (w4\<lparr>vector_store := Some db\<rparr>) of
                       (Inl x, w6) \<Rightarrow> (Inl x, w6, os_path_join (temp_dir e) (safe_filename name))
                     | (Inr ch, w6) \<Rightarrow>
                         (Inr (Message (''Successfully processed '' @ CHR 0x27 # name
                                        @ CHR 0x27 # ''. Ready to answer questions.'')),
                          w6\<lparr>rag_chain := Some ch\<rparr>,
                          os_path_join (temp_dir e) (safe_filename name)))))"
  using n o k z
  unfolding upload_try_def Let_def copyfileobj_def os_path_getsize_def by simp

lemma upload_try_chain_step:
  assumes n: "filename file = Some name"
    and o: "open_wb e (fs w) (os_path_join (temp_dir e) (safe_filename name)) = Inr f1"
    and k: "copyfileobj_error e = None"
    and z: "content file \<noteq> []"
    and l: "load_and_split_pdf e (os_path_join (temp_dir e) (safe_filename name))
              (w\<lparr>fs := f1(resolve (os_path_join (temp_dir e) (safe_filename name))
                           \<mapsto> File (content file))\<rparr>) = (Inr chunks, w3)"
    and c: "create_vector_store e chunks w3 = (Inr db, w4)"
  shows "\<exists>w6. upload_try e file w =
           (case chain_init e db of
              Some y \<Rightarrow> Inl y
            | None \<Rightarrow> Inr (Message (''Successfully processed '' @ CHR 0x27 # name
                                     @ CHR 0x27 # ''. Ready to answer questions.'')),
            w6, os_path_join (temp_dir e) (safe_filename name))
         \<and> vector_store w6 = Some db
         \<and> rag_chain w6 = (case chain_init e db of
                              Some y \<Rightarrow> rag_chain w
                            | None \<Rightarrow> Some \<lparr>retriever_db = db\<rparr>)"
proof -
  from load_and_split_pdf_frameD [OF l] create_vector_store_frameD [OF c]
  have "rag_chain w4 = rag_chain w" by simp
  moreover have "upload_try e file w =
      (case create_rag_chain e db (w4\<lparr>vector_store := Some db\<rparr>) of
         (Inl x, w6) \<Rightarrow> (Inl x, w6, os_path_join (temp_dir e) (safe_filename name))
       | (Inr ch, w6) \<Rightarrow>
           (Inr (Message (''Successfully processed '' @ CHR 0x27 # name
                          @ CHR 0x27 # ''. Ready to answer questions.'')),
            w6\<lparr>rag_chain := Some ch\<rparr>,
            os_path_join (temp_dir e) (safe_filename name)))"
    by (simp add: upload_try_pipeline [OF n o k z] l c)
  ultimately show ?thesis
    by (cases "chain_init e db") (simp_all add: create_rag_chain_def Let_def)
qed


lemma created_store_SomeD:
  assumes "created_store e file w = Some db"
  obtains name f1 chunks w3 w4 where
    "content_type file = Some ''application/pdf''" "filename file = Some name"
    "open_wb e (fs w) (os_path_join (temp_dir e) (safe_filename name)) = Inr f1"
    "copyfileobj_error e = None" "content file \<noteq> []"
    "load_and_split_pdf e (os_path_join (temp_dir e) (safe_filename name))
       (w\<lparr>fs := f1(resolve (os_path_join (temp_dir e) (safe_filename name))
                    \<mapsto> File (content file))\<rparr>) = (Inr chunks, w3)"
    "create_vector_store e chunks w3 = (Inr db, w4)"
  using assms unfolding created_store_def Let_def
  by (auto split: if_splits option.splits sum.splits prod.splits)

lemma created_store_SomeI:
  assumes "content_type file = Some ''application/pdf''" "filename file = Some name"
    "open_wb e (fs w) (os_path_join (temp_dir e) (safe_filename name)) = Inr f1"
    "copyfileobj_error e = None" "content file \<noteq> []"
    "load_and_split_pdf e (os_path_join (temp_dir e) (safe_filename name))
       (w\<lparr>fs := f1(resolve (os_path_join (temp_dir e) (safe_filename name))
                    \<mapsto> File (content file))\<rparr>) = (Inr chunks, w3)"
    "create_vector_store e chunks w3 = (Inr db, w4)"
  shows "created_store e file w = Some db"
  using assms by (simp add: created_store_def Let_def)

lemma upload_document_with_store:
  assumes s: "created_store e file w = Some db"
  shows "fst (upload_document e file w) =
           (case chain_init e db of
              Some y \<Rightarrow> Inl (upload_except y)
            | None \<Rightarrow>
                Inr (Message (''Successfully processed '' @ CHR 0x27 # the (filename file)
                              @ CHR 0x27 # ''. Ready to answer questions.'')))"
    and "vector_store (snd (upload_document e file w)) = Some db"
    and "rag_chain (snd (upload_document e file w)) =
           (case chain_init e db of
              Some y \<Rightarrow> rag_chain w
            | None \<Rightarrow> Some \<lparr>retriever_db = db\<rparr>)"
proof -
  from s obtain name f1 chunks w3 w4 where
    c: "content_type file = Some ''application/pdf''" and n: "filename file = Some name"
    and o: "open_wb e (fs w) (os_path_join (temp_dir e) (safe_filename name)) = Inr f1"
    and k: "copyfileobj_error e = None" and z: "content file \<noteq> []"
    and l: "load_and_split_pdf e (os_path_join (temp_dir e) (safe_filename name))
       (w\<lparr>fs := f1(resolve (os_path_join (temp_dir e) (safe_filename name))
                    \<mapsto> File (content file))\<rparr>) = (Inr chunks, w3)"
    and v: "create_vector_store e chunks w3 = (Inr db, w4)"
    by (rule created_store_SomeD)
  from upload_try_chain_step [OF n o k z l v] obtain w6 where
    t: "upload_try e file w =
           (case chain_init e db of
              Some y \<Rightarrow> Inl y
            | None \<Rightarrow> Inr (Message (''Successfully processed '' @ CHR 0x27 # name
                                     @ CHR 0x27 # ''. Ready to answer questions.'')),
            w6, os_path_join (temp_dir e) (safe_filename name))"
    and vs: "vector_store w6 = Some db"
    and rc: "rag_chain w6 = (case chain_init e db of
                              Some y \<Rightarrow> rag_chain w
                            | None \<Rightarrow> Some \<lparr>retriever_db = db\<rparr>)"
    by blast
  note sv = upload_try_saved [OF t n o]
  from sv(3) obtain d where d: "fs w6 (resolve (os_path_join (temp_dir e) (safe_filename name))) = Some (File d)"
    by blast
  note doc = upload_document_saved [OF c t sv(2) d]
  from doc n show "fst (upload_document e file w) =
           (case chain_init e db of
              Some y \<Rightarrow> Inl (upload_except y)
            | None \<Rightarrow>
                Inr (Message (''Successfully processed '' @ CHR 0x27 # the (filename file)
                              @ CHR 0x27 # ''. Ready to answer questions.'')))"
    by (simp split: option.splits)
  from doc vs show "vector_store (snd (upload_document e file w)) = Some db"
    by simp
  from doc rc show "rag_chain (snd (upload_document e file w)) =
           (case chain_init e db of
              Some y \<Rightarrow> rag_chain w
            | None \<Rightarrow> Some \<lparr>retriever_db = db\<rparr>)"
    by simp
qed

lemma upload_document_without_store:
  assumes s: "created_store e file w = None"
  shows "\<exists>x. fst (upload_document e file w) = Inl x"
    and "vector_store (snd (upload_document e file w)) = vector_store w"
    and "rag_chain (snd (upload_document e file w)) = rag_chain w"
proof -
  have "(\<exists>x. fst (upload_document e file w) = Inl x)
      \<and> vector_store (snd (upload_document e file w)) = vector_store w
      \<and> rag_chain (snd (upload_document e file w)) = rag_chain w"
  proof (cases "content_type file = Some ''application/pdf''")
    case False
    then show ?thesis by (simp add: upload_document_def)
  next
    case True
    obtain rt w1 p where t: "upload_try e file w = (rt, w1, p)"
      by (cases "upload_try e file w")
    let ?rt = "case rt of Inl x \<Rightarrow> Inl (upload_except x) | Inr v \<Rightarrow> Inr v"
    note doc = upload_document_pdf [OF True t]
    have tr: "(\<exists>x. rt = Inl x) \<and> vector_store w1 = vector_store w \<and> rag_chain w1 = rag_chain w"
      using t
    proof (cases rule: upload_try_cases)
      case no_name
      then show ?thesis by auto
    next
      case (open_failed name x)
      then show ?thesis by auto
    next
      case (copy_failed name f1 m)
      then show ?thesis by auto
    next
      case (empty_file name f1)
      then show ?thesis by auto
    next
      case (load_failed name f1 x)
      from load_and_split_pdf_frameD [OF load_failed(6)] load_failed(7) show ?thesis
        by auto
    next
      case (store_failed name f1 chunks w3 x)
      from load_and_split_pdf_frameD [OF store_failed(6)]
        create_vector_store_frameD [OF store_failed(7)] store_failed(8)
      show ?thesis by auto
    next
      case (chain_failed name f1 chunks w3 db w4 x)
      from created_store_SomeI [OF True chain_failed(1) chain_failed(3)[unfolded chain_failed(2)]
          chain_failed(4,5) chain_failed(6)[unfolded chain_failed(2)] chain_failed(7)] s
      show ?thesis by simp
    next
      case (ok name f1 chunks w3 db w4 ch w6)
      from created_store_SomeI [OF True ok(1) ok(3)[unfolded ok(2)]
          ok(4,5) ok(6)[unfolded ok(2)] ok(7)] s
      show ?thesis by simp
    qed
    then obtain x where x: "rt = Inl x" by blast
    have "\<exists>y. fst (upload_finally ?rt w1 p) = Inl y"
      using x upload_finally_Inr [of ?rt w1 p] by (cases "fst (upload_finally ?rt w1 p)") auto
    with doc tr upload_finally_session [of ?rt w1 p] show ?thesis
      by simp
  qed
  then show "\<exists>x. fst (upload_document e file w) = Inl x"
    and "vector_store (snd (upload_document e file w)) = vector_store w"
    and "rag_chain (snd (upload_document e file w)) = rag_chain w"
    by simp_all
qed

text \<open>
  Claim C1, as amended. An \<^verbatim>\<open>/upload\<close> request that fails before
  \<^verbatim>\<open>create_vector_store\<close> has returned a store leaves both globals exactly as they
  were. Once the store is returned it is assigned to \<^verbatim>\<open>vector_store\<close> at once: when the
  creation of the RAG chain on it then raises, the request fails with that exception as
  translated by the \<^verbatim>\<open>except\<close> clauses, \<^verbatim>\<open>vector_store\<close> holds the new store and
  \<^verbatim>\<open>rag_chain\<close> is left as it was; when it succeeds, the request succeeds and both
  globals are replaced, \<^verbatim>\<open>vector_store\<close> by the store just returned and
  \<^verbatim>\<open>rag_chain\<close> by the chain built on it.
\<close>

theorem upload_session_update:
  "(created_store e file w = None \<longrightarrow>
      (\<exists>x. fst (upload_document e file w) = Inl x)
    \<and> vector_store (snd (upload_document e file w)) = vector_store w
    \<and> rag_chain (snd (upload_document e file w)) = rag_chain w)
 \<and> (\<forall>db. created_store e file w = Some db \<longrightarrow>
      (\<forall>y. chain_init e db = Some y \<longrightarrow>
          fst (upload_document e file w) = Inl (upload_except y)
        \<and> vector_store (snd (upload_document e file w)) = Some db
        \<and> rag_chain (snd (upload_document e file w)) = rag_chain w)
    \<and> (chain_init e db = None \<longrightarrow>
          (\<exists>v. fst (upload_document e file w) = Inr v)
        \<and> vector_store (snd (upload_document e file w)) = Some db
        \<and> rag_chain (snd (upload_document e file w)) = Some \<lparr>retriever_db = db\<rparr>))"
  using upload_document_without_store [of e "file" w] upload_document_with_store [of e "file" w]
  by auto

text \<open>
  When the chain construction raises after the store was created, the request fails with
  a 500 and \<^verbatim>\<open>vector_store\<close> already holds the new store while \<^verbatim>\<open>rag_chain\<close>
  is still unset.
\<close>

theorem upload_partial_session_counterexample:
  "fst (upload_document chain_fail_env demo_file (initial_world demo_fs))
     = Inl (HTTPException 500 ''An unexpected error occurred: model not available'')
   \<and> vector_store (snd (upload_document chain_fail_env demo_file (initial_world demo_fs)))
       \<noteq> vector_store (initial_world demo_fs)
   \<and> rag_chain (snd (upload_document chain_fail_env demo_file (initial_world demo_fs)))
       = rag_chain (initial_world demo_fs)"
  unfolding chain_fail_upload_run by (simp add: initial_world_def)

lemma demo_ready_world_eq:
  "demo_ready_world =
      \<lparr>fs = demo_fs([''tmp'', ''pdfchat'', ''report.pdf''] := None),
       vector_store = Some demo_db,
       rag_chain = Some \<lparr>retriever_db = demo_db\<rparr>,
       collections = [''pdf_chat_0'' \<mapsto> demo_db],
       calls = [PyPDFLoader_load ''/tmp/pdfchat/report.pdf'',
                Split_documents demo_chunks,
                Embeddings_init, Chroma_init ''pdf_chat_0'',
                Embed_documents [''first page'', ''second page''],
                Collection_add ''pdf_chat_0'' [''1'', ''2''] [[10, 1], [11, 1]]
                  [''first page'', ''second page'']
                  [[(''page'', ''0'')], [(''page'', ''1'')]],
                Rag_chain_init ''pdf_chat_0''],
       uuid_count = 3\<rparr>"
  by (simp add: demo_ready_world_def demo_upload_run)

lemmas second_defs =
  second_env_def second_chain_fail_env_def second_file_def second_chunks_def second_db_def
  created_store_def quota_env_def

lemma second_created_store:
  "created_store second_env second_file demo_ready_world = Some second_db"
  "created_store second_chain_fail_env second_file demo_ready_world = Some second_db"
  "created_store quota_env demo_file demo_ready_world = None"
  unfolding demo_ready_world_eq
  by (simp_all add: second_defs run_defs str_nat.simps char_of_digits)

lemma second_chain_init:
  "chain_init second_env second_db = None"
  "chain_init second_chain_fail_env second_db = Some (OtherException ''model not available'')"
  by (simp_all add: second_defs demo_env_def)

lemma quota_from_ready_run:
  "fst (upload_document quota_env demo_file demo_ready_world)
     = Inl (HTTPException 400 ''Google API quota exceeded. Please check your plan. Error: 429 quota'')"
  unfolding demo_ready_world_eq
  by (simp add: second_defs run_defs str_nat.simps char_of_digits)

theorem upload_session_update_witness:
  "vector_store demo_ready_world = Some demo_db
   \<and> rag_chain demo_ready_world = Some \<lparr>retriever_db = demo_db\<rparr>
   \<and> created_store quota_env demo_file demo_ready_world = None
   \<and> fst (upload_document quota_env demo_file demo_ready_world)
       = Inl (HTTPException 400 ''Google API quota exceeded. Please check your plan. Error: 429 quota'')
   \<and> vector_store (snd (upload_document quota_env demo_file demo_ready_world)) = Some demo_db
   \<and> rag_chain (snd (upload_document quota_env demo_file demo_ready_world))
       = Some \<lparr>retriever_db = demo_db\<rparr>
   \<and> created_store second_chain_fail_env second_file demo_ready_world = Some second_db
   \<and> chain_init second_chain_fail_env second_db = Some (OtherException ''model not available'')
   \<and> fst (upload_document second_chain_fail_env second_file demo_ready_world)
       = Inl (HTTPException 500 ''An unexpected error occurred: model not available'')
   \<and> vector_store (snd (upload_document second_chain_fail_env second_file demo_ready_world))
       = Some second_db
   \<and> rag_chain (snd (upload_document second_chain_fail_env second_file demo_ready_world))
       = Some \<lparr>retriever_db = demo_db\<rparr>
   \<and> created_store second_env second_file demo_ready_world = Some second_db
   \<and> chain_init second_env second_db = None
   \<and> vector_store (snd (upload_document second_env second_file demo_ready_world)) = Some second_db
   \<and> rag_chain (snd (upload_document second_env second_file demo_ready_world))
       = Some \<lparr>retriever_db = second_db\<rparr>
   \<and> second_db \<noteq> demo_db"
proof -
  have r: "vector_store demo_ready_world = Some demo_db"
    "rag_chain demo_ready_world = Some \<lparr>retriever_db = demo_db\<rparr>"
    by (simp_all add: demo_ready_world_eq)
  have d: "second_db \<noteq> demo_db"
    by (simp add: second_db_def demo_db_def)
  from upload_session_update [of quota_env demo_file demo_ready_world]
    upload_session_update [of second_chain_fail_env second_file demo_ready_world]
    upload_session_update [of second_env second_file demo_ready_world]
    second_created_store second_chain_init quota_from_ready_run r d
  show ?thesis by simp
qed

subsection \<open>The temporary file\<close>

text \<open>
  Claim C2. For every \<^verbatim>\<open>/upload\<close> request that writes the uploaded file into the
  temporary directory (the content type is PDF, the filename is a string and
  \<^verbatim>\<open>open\<close> succeeds on the joined path), nothing exists at that path when the handler
  exits, whether the request succeeds, is rejected as empty, hits the quota or fails in
  any step of the pipeline.
\<close>

theorem upload_removes_temp_file:
  assumes c: "content_type file = Some ''application/pdf''"
    and n: "filename file = Some name"
    and o: "open_wb e (fs w) (os_path_join (temp_dir e) (safe_filename name)) = Inr f1"
  shows "\<not> os_path_exists (fs (snd (upload_document e file w)))
             (os_path_join (temp_dir e) (safe_filename name))"
proof -
  obtain r w1 p where t: "upload_try e file w = (r, w1, p)"
    by (cases "upload_try e file w")
  note s = upload_try_saved [OF t n o]
  from s(3) obtain d where d: "fs w1 (resolve p) = Some (File d)" by blast
  from upload_document_saved [OF c t s(2) d] s(1) show ?thesis
    by (simp add: os_path_exists_def)
qed

theorem upload_removes_temp_file_witness:
  "open_wb demo_env (fs (initial_world demo_fs)) ''/tmp/pdfchat/report.pdf''
     = Inr (demo_fs([''tmp'', ''pdfchat'', ''report.pdf''] \<mapsto> File []))
   \<and> \<not> os_path_exists (fs (snd (upload_document demo_env demo_file (initial_world demo_fs))))
            ''/tmp/pdfchat/report.pdf''
   \<and> \<not> os_path_exists (fs (snd (upload_document quota_env demo_file (initial_world demo_fs))))
            ''/tmp/pdfchat/report.pdf''"
proof -
  have c: "content_type demo_file = Some ''application/pdf''"
    and n: "filename demo_file = Some ''report.pdf''"
    by (simp_all add: demo_file_def)
  have i: "fs (initial_world demo_fs) = demo_fs"
    by (simp add: initial_world_def)
  from upload_removes_temp_file [OF c n, of demo_env "initial_world demo_fs"]
    upload_removes_temp_file [OF c n, of quota_env "initial_world demo_fs"]
  show ?thesis
    by (simp add: demo_path demo_open i)
qed

subsection \<open>Quota errors\<close>

lemma load_and_split_pdf_outcome:
  "fs w (resolve p) = Some (File data) \<Longrightarrow>
   fst (load_and_split_pdf e p w) =
     (case pdf_load e data of Inl x \<Rightarrow> Inl x | Inr pages \<Rightarrow> split_documents e pages)"
  by (simp add: load_and_split_pdf_def Let_def split: sum.splits)

lemma create_vector_store_outcome:
  "fst (create_vector_store e chunks w) =
     (case embeddings_init e of
        Some x \<Rightarrow> Inl x
      | None \<Rightarrow>
         (case chroma_init e (''pdf_chat_'' @ uuid4 e (uuid_count w)) of
            Some x \<Rightarrow> Inl x
          | None \<Rightarrow>
             (case embed_documents e (map page_content chunks) of
                Inl x \<Rightarrow> Inl x
              | Inr vs \<Rightarrow>
                 (case collection_add_error e
                         (map (uuid4 e) [Suc (uuid_count w) ..< Suc (uuid_count w) + length chunks])
                         vs (map page_content chunks) (map metadata chunks) of
                    Some x \<Rightarrow> Inl x
                  | None \<Rightarrow>
                      Inr (collection_add
                             (get_or_create_collection (collections w)
                                (''pdf_chat_'' @ uuid4 e (uuid_count w)))
                             (map (uuid4 e) [Suc (uuid_count w) ..< Suc (uuid_count w) + length chunks])
                             vs (map page_content chunks) (map metadata chunks))))))"
  by (simp add: create_vector_store_def Let_def log_call_def del: upt_Suc
      split: option.splits sum.splits)

lemma upload_document_outcome:
  assumes c: "content_type file = Some ''application/pdf''"
    and n: "filename file = Some name"
    and o: "open_wb e (fs w) (os_path_join (temp_dir e) (safe_filename name)) = Inr f1"
    and k: "copyfileobj_error e = None"
    and z: "content file \<noteq> []"
  shows "fst (upload_document e file w) =
    (case pdf_load e (content file) of
       Inl x \<Rightarrow> Inl (upload_except x)
     | Inr pages \<Rightarrow>
        (case split_documents e pages of
           Inl x \<Rightarrow> Inl (upload_except x)
         | Inr chunks \<Rightarrow>
            (case embeddings_init e of
               Some x \<Rightarrow> Inl (upload_except x)
             | None \<Rightarrow>
                (case chroma_init e (''pdf_chat_'' @ uuid4 e (uuid_count w)) of
                   Some x \<Rightarrow> Inl (upload_except x)
                 | None \<Rightarrow>
                    (case embed_documents e (map page_content chunks) of
                       Inl x \<Rightarrow> Inl (upload_except x)
                     | Inr vs \<Rightarrow>
                        (case collection_add_error e
                                (map (uuid4 e) [Suc (uuid_count w) ..< Suc (uuid_count w) + length chunks])
                                vs (map page_content chunks) (map metadata chunks) of
                           Some x \<Rightarrow> Inl (upload_except x)
                         | None \<Rightarrow>
                            (case chain_init e
                                   (collection_add
                                      (get_or_create_collection (collections w)
                                         (''pdf_chat_'' @ uuid4 e (uuid_count w)))
                                      (map (uuid4 e) [Suc (uuid_count w) ..< Suc (uuid_count w) + length chunks])
                                      vs (map page_content chunks) (map metadata chunks)) of
                               Some x \<Rightarrow> Inl (upload_except x)
                             | None \<Rightarrow>
                                 Inr (Message (''Successfully processed '' @ CHR 0x27 # name
                                               @ CHR 0x27 # ''. Ready to answer questions.'')))))))))"
proof -
  let ?p = "os_path_join (temp_dir e) (safe_filename name)"
  let ?w2 = "w\<lparr>fs := f1(resolve ?p \<mapsto> File (content file))\<rparr>"
  obtain rt w1 p where t: "upload_try e file w = (rt, w1, p)"
    by (cases "upload_try e file w")
  note sv = upload_try_saved [OF t n o]
  from sv(3) obtain d where d: "fs w1 (resolve p) = Some (File d)" by blast
  from upload_document_saved [OF c t sv(2) d]
  have doc: "fst (upload_document e file w)
               = (case rt of Inl x \<Rightarrow> Inl (upload_except x) | Inr v \<Rightarrow> Inr v)"
    by simp
  obtain r3 w3 where l: "load_and_split_pdf e ?p ?w2 = (r3, w3)"
    by (cases "load_and_split_pdf e ?p ?w2")
  have "fs ?w2 (resolve ?p) = Some (File (content file))" by simp
  from load_and_split_pdf_outcome [OF this, of e] l
  have r3: "r3 = (case pdf_load e (content file) of
                    Inl x \<Rightarrow> Inl x | Inr pages \<Rightarrow> split_documents e pages)"
    by simp
  from load_and_split_pdf_frame2 [OF l]
  have f3: "collections w3 = collections w" "uuid_count w3 = uuid_count w"
    by simp_all
  show ?thesis
  proof (cases r3)
    case (Inl x)
    with t l upload_try_pipeline [OF n o k z] have "rt = Inl x" by simp
    with doc r3 Inl show ?thesis
      by (auto split: sum.splits)
  next
    case chunks: (Inr chunks)
    obtain r4 w4 where v: "create_vector_store e chunks w3 = (r4, w4)"
      by (cases "create_vector_store e chunks w3")
    from v have "r4 = fst (create_vector_store e chunks w3)" by simp
    then have r4: "r4 =
     (case embeddings_init e of
        Some x \<Rightarrow> Inl x
      | None \<Rightarrow>
         (case chroma_init e (''pdf_chat_'' @ uuid4 e (uuid_count w)) of
            Some x \<Rightarrow> Inl x
          | None \<Rightarrow>
             (case embed_documents e (map page_content chunks) of
                Inl x \<Rightarrow> Inl x
              | Inr vs \<Rightarrow>
                 (case collection_add_error e
                         (map (uuid4 e) [Suc (uuid_count w) ..< Suc (uuid_count w) + length chunks])
                         vs (map page_content chunks) (map metadata chunks) of
                    Some x \<Rightarrow> Inl x
                  | None \<Rightarrow>
                      Inr (collection_add
                             (get_or_create_collection (collections w)
                                (''pdf_chat_'' @ uuid4 e (uuid_count w)))
                             (map (uuid4 e) [Suc (uuid_count w) ..< Suc (uuid_count w) + length chunks])
                             vs (map page_content chunks) (map metadata chunks))))))"
      unfolding create_vector_store_outcome f3 .
    show ?thesis
    proof (cases r4)
      case (Inl x)
      with t l chunks v upload_try_pipeline [OF n o k z] have "rt = Inl x" by simp
      with doc r3 chunks r4 Inl show ?thesis
        by (auto simp del: upt_Suc split: sum.splits option.splits)
    next
      case db: (Inr db)
      from upload_try_chain_step [OF n o k z l [unfolded chunks] v [unfolded db]] t
      have "rt = (case chain_init e db of
              Some y \<Rightarrow> Inl y
            | None \<Rightarrow> Inr (Message (''Successfully processed '' @ CHR 0x27 # name
                                     @ CHR 0x27 # ''. Ready to answer questions.'')))"
        by auto
      with doc r3 chunks r4 db show ?thesis
        by (auto simp del: upt_Suc split: sum.splits option.splits)
    qed
  qed
qed

text \<open>
  Claim C3. Take an \<^verbatim>\<open>/upload\<close> request that reaches the pipeline (PDF content type,
  file saved and not empty). Whichever external call of the pipeline is the first to
  raise (the loader, the splitter, the set-up of the embeddings model or of the
  collection, the embedding call, \<^verbatim>\<open>_collection.add\<close> or the construction of the
  chain), the handler's outcome is that exception as translated by its \<^verbatim>\<open>except\<close>
  clauses; for \<^verbatim>\<open>/ask\<close> with a chain set, the same holds of the chain's invocation.
  The translation of a \<open>ResourceExhausted\<close> is an \<open>HTTPException\<close> with status 400
  whose detail contains the word \<open>quota\<close> and the provider's message; the translation
  of any other \<^verbatim>\<open>Exception\<close> is a 500 with a generic detail.
\<close>

theorem quota_error_is_400:
  "(content_type file = Some ''application/pdf'' \<and> filename file = Some name
      \<and> open_wb e (fs w) (os_path_join (temp_dir e) (safe_filename name)) = Inr f1
      \<and> copyfileobj_error e = None \<and> content file \<noteq> [] \<longrightarrow>
      (\<forall>x. pdf_load e (content file) = Inl x \<longrightarrow>
            fst (upload_document e file w) = Inl (upload_except x))
      \<and> (\<forall>pages. pdf_load e (content file) = Inr pages \<longrightarrow>
           (\<forall>x. split_documents e pages = Inl x \<longrightarrow>
                 fst (upload_document e file w) = Inl (upload_except x))
           \<and> (\<forall>chunks. split_documents e pages = Inr chunks \<longrightarrow>
                (\<forall>x. embeddings_init e = Some x \<longrightarrow>
                      fst (upload_document e file w) = Inl (upload_except x))
                \<and> (embeddings_init e = None \<longrightarrow>
                     (\<forall>x. chroma_init e (''pdf_chat_'' @ uuid4 e (uuid_count w)) = Some x \<longrightarrow>
                           fst (upload_document e file w) = Inl (upload_except x))
                     \<and> (chroma_init e (''pdf_chat_'' @ uuid4 e (uuid_count w)) = None \<longrightarrow>
                          (\<forall>x. embed_documents e (map page_content chunks) = Inl x \<longrightarrow>
                                fst (upload_document e file w) = Inl (upload_except x))
                          \<and> (\<forall>vs. embed_documents e (map page_content chunks) = Inr vs \<longrightarrow>
                               (\<forall>x. collection_add_error e (map (uuid4 e) [Suc (uuid_count w) ..< Suc (uuid_count w) + length chunks])
                                      vs (map page_content chunks) (map metadata chunks) = Some x \<longrightarrow>
                                     fst (upload_document e file w) = Inl (upload_except x))
                               \<and> (collection_add_error e (map (uuid4 e) [Suc (uuid_count w) ..< Suc (uuid_count w) + length chunks])
                                      vs (map page_content chunks) (map metadata chunks) = None \<longrightarrow>
                                    (\<forall>x. chain_init e
                                         (collection_add (get_or_create_collection (collections w) (''pdf_chat_'' @ uuid4 e (uuid_count w)))
                                           (map (uuid4 e) [Suc (uuid_count w) ..< Suc (uuid_count w) + length chunks])
                                           vs (map page_content chunks) (map metadata chunks)) = Some x \<longrightarrow>
                                          fst (upload_document e file w) = Inl (upload_except x)))))))))
 \<and> (rag_chain w = Some ch \<longrightarrow>
      (\<forall>x. chain_invoke e ch question = Inl x \<longrightarrow>
            fst (ask_question e question w) = Inl (ask_except x)))
 \<and> upload_except (ResourceExhausted m)
      = HTTPException 400 (''Google API quota exceeded. Please check your plan. Error: '' @ m)
 \<and> ask_except (ResourceExhausted m)
      = HTTPException 400 (''Google API quota exceeded. Please check your plan. Error: '' @ m)
 \<and> status_code (Inl (HTTPException 400
      (''Google API quota exceeded. Please check your plan. Error: '' @ m))) = 400
 \<and> sublist ''quota'' (''Google API quota exceeded. Please check your plan. Error: '' @ m)
 \<and> upload_except (OtherException m) = HTTPException 500 (''An unexpected error occurred: '' @ m)
 \<and> ask_except (OtherException m) = HTTPException 500 (''An unexpected error occurred: '' @ m)
 \<and> status_code (Inl (HTTPException 500 (''An unexpected error occurred: '' @ m))) = 500"
  (is "(?pre \<longrightarrow> ?nest) \<and> ?ask \<and> ?rest")
proof -
  have nest: ?nest if pre: ?pre
  proof -
    from pre have c: "content_type file = Some ''application/pdf''" and n: "filename file = Some name"
      and o: "open_wb e (fs w) (os_path_join (temp_dir e) (safe_filename name)) = Inr f1"
      and k: "copyfileobj_error e = None" and z: "content file \<noteq> []"
      by simp_all
    from upload_document_outcome [OF c n o k z] show ?nest
      by (simp del: upt_Suc)
  qed
  have ask: ?ask
    by (simp add: ask_question_def Let_def)
  have "sublist ''quota'' (''Google API '' @ ''quota'' @ '' exceeded. Please check your plan. Error: '' @ m)"
    by (rule sublist_appendI)
  then have rest: ?rest
    by simp
  from nest ask rest show ?thesis
    by blast
qed

lemma generic_open:
  "open_wb generic_env demo_fs ''/tmp/pdfchat/report.pdf''
     = Inr (demo_fs([''tmp'', ''pdfchat'', ''report.pdf''] \<mapsto> File []))"
  "os_path_join (temp_dir generic_env) (safe_filename ''report.pdf'') = ''/tmp/pdfchat/report.pdf''"
  by (simp_all add: generic_env_def demo_env_def open_wb_def demo_path demo_fs_def
      os_path_join_def safe_filename_def)

lemma quota_calls:
  "pdf_load quota_env (content demo_file) = Inr demo_chunks"
  "split_documents quota_env demo_chunks = Inr demo_chunks"
  "embeddings_init quota_env = None"
  "chroma_init quota_env ''pdf_chat_0'' = None"
  "embed_documents quota_env (map page_content demo_chunks) = Inl (ResourceExhausted ''429 quota'')"
  "chain_invoke quota_env \<lparr>retriever_db = demo_db\<rparr> ''what?'' = Inl (ResourceExhausted ''429 quota'')"
  "copyfileobj_error quota_env = None"
  "uuid4 quota_env 0 = ''0''"
  by (simp_all add: quota_env_def demo_env_def str_nat.simps char_of_digits)

lemma generic_calls:
  "pdf_load generic_env (content demo_file) = Inr demo_chunks"
  "split_documents generic_env demo_chunks = Inr demo_chunks"
  "embeddings_init generic_env = None"
  "chroma_init generic_env ''pdf_chat_0'' = None"
  "embed_documents generic_env (map page_content demo_chunks) = Inl (OtherException ''connection reset'')"
  "chain_invoke generic_env \<lparr>retriever_db = demo_db\<rparr> ''what?'' = Inl (OtherException ''connection reset'')"
  "copyfileobj_error generic_env = None"
  "uuid4 generic_env 0 = ''0''"
  by (simp_all add: generic_env_def demo_env_def str_nat.simps char_of_digits)

theorem quota_error_is_400_witness:
  "content_type demo_file = Some ''application/pdf'' \<and> filename demo_file = Some ''report.pdf''
   \<and> content demo_file \<noteq> []
   \<and> open_wb quota_env (fs (initial_world demo_fs)) ''/tmp/pdfchat/report.pdf''
       = Inr (demo_fs([''tmp'', ''pdfchat'', ''report.pdf''] \<mapsto> File []))
   \<and> pdf_load quota_env (content demo_file) = Inr demo_chunks
   \<and> split_documents quota_env demo_chunks = Inr demo_chunks
   \<and> embeddings_init quota_env = None
   \<and> chroma_init quota_env ''pdf_chat_0'' = None
   \<and> embed_documents quota_env (map page_content demo_chunks) = Inl (ResourceExhausted ''429 quota'')
   \<and> fst (upload_document quota_env demo_file (initial_world demo_fs))
       = Inl (HTTPException 400 ''Google API quota exceeded. Please check your plan. Error: 429 quota'')
   \<and> embed_documents generic_env (map page_content demo_chunks) = Inl (OtherException ''connection reset'')
   \<and> fst (upload_document generic_env demo_file (initial_world demo_fs))
       = Inl (HTTPException 500 ''An unexpected error occurred: connection reset'')
   \<and> rag_chain demo_ready_world = Some \<lparr>retriever_db = demo_db\<rparr>
   \<and> chain_invoke quota_env \<lparr>retriever_db = demo_db\<rparr> ''what?'' = Inl (ResourceExhausted ''429 quota'')
   \<and> fst (ask_question quota_env ''what?'' demo_ready_world)
       = Inl (HTTPException 400 ''Google API quota exceeded. Please check your plan. Error: 429 quota'')
   \<and> chain_invoke generic_env \<lparr>retriever_db = demo_db\<rparr> ''what?'' = Inl (OtherException ''connection reset'')
   \<and> fst (ask_question generic_env ''what?'' demo_ready_world)
       = Inl (HTTPException 500 ''An unexpected error occurred: connection reset'')"
proof -
  have f: "content_type demo_file = Some ''application/pdf''" "filename demo_file = Some ''report.pdf''"
    "content demo_file \<noteq> []"
    by (simp_all add: demo_file_def)
  have i: "fs (initial_world demo_fs) = demo_fs" "uuid_count (initial_world demo_fs) = 0"
    by (simp_all add: initial_world_def)
  have r: "rag_chain demo_ready_world = Some \<lparr>retriever_db = demo_db\<rparr>"
    by (simp add: demo_ready_world_eq)
  note facts = f i r quota_calls generic_calls demo_path demo_open generic_open
  from quota_error_is_400 [of demo_file "''report.pdf''" quota_env "initial_world demo_fs"
      "demo_fs([''tmp'', ''pdfchat'', ''report.pdf''] \<mapsto> File [])"
      "\<lparr>retriever_db = demo_db\<rparr>" "''what?''" "''429 quota''"]
  have u1: "fst (upload_document quota_env demo_file (initial_world demo_fs))
       = Inl (HTTPException 400 ''Google API quota exceeded. Please check your plan. Error: 429 quota'')"
    by (simp add: facts)
  from quota_error_is_400 [of demo_file "''report.pdf''" generic_env "initial_world demo_fs"
      "demo_fs([''tmp'', ''pdfchat'', ''report.pdf''] \<mapsto> File [])"
      "\<lparr>retriever_db = demo_db\<rparr>" "''what?''" "''connection reset''"]
  have u2: "fst (upload_document generic_env demo_file (initial_world demo_fs))
       = Inl (HTTPException 500 ''An unexpected error occurred: connection reset'')"
    by (simp add: facts)
  from quota_error_is_400 [of demo_file "''report.pdf''" quota_env demo_ready_world
      "demo_fs([''tmp'', ''pdfchat'', ''report.pdf''] \<mapsto> File [])"
      "\<lparr>retriever_db = demo_db\<rparr>" "''what?''" "''429 quota''"]
  have a1: "fst (ask_question quota_env ''what?'' demo_ready_world)
       = Inl (HTTPException 400 ''Google API quota exceeded. Please check your plan. Error: 429 quota'')"
    by (simp add: facts)
  from quota_error_is_400 [of demo_file "''report.pdf''" generic_env demo_ready_world
      "demo_fs([''tmp'', ''pdfchat'', ''report.pdf''] \<mapsto> File [])"
      "\<lparr>retriever_db = demo_db\<rparr>" "''what?''" "''connection reset''"]
  have a2: "fst (ask_question generic_env ''what?'' demo_ready_world)
       = Inl (HTTPException 500 ''An unexpected error occurred: connection reset'')"
    by (simp add: facts)
  from u1 u2 a1 a2 show ?thesis
    by (simp add: facts)
qed

subsection \<open>Validation errors\<close>

lemma empty_upload_run:
  "upload_document demo_env demo_empty_file (initial_world demo_fs) =
     (Inl (HTTPException 400 ''The uploaded PDF file is empty.''),
      \<lparr>fs = demo_fs([''tmp'', ''pdfchat'', ''report.pdf''] := None),
       vector_store = None, rag_chain = None, collections = Map.empty,
         calls = [], uuid_count = 0\<rparr>)"
  by (simp add: demo_empty_file_def run_defs)

text \<open>
  Claim C4. For every \<^verbatim>\<open>/upload\<close> request whose file is saved with size zero (the
  content type is PDF, \<^verbatim>\<open>open\<close> and the copy succeed and the upload has no bytes), the
  endpoint raises an \<open>HTTPException\<close> with status 400 and the detail that the file is
  empty: the exception is raised inside the try block and re-raised by the
  \<^verbatim>\<open>except Exception\<close> clause. Both globals are unchanged, and no pipeline step was
  called.
\<close>

theorem empty_upload_is_400:
  assumes c: "content_type file = Some ''application/pdf''"
    and n: "filename file = Some name"
    and o: "open_wb e (fs w) (os_path_join (temp_dir e) (safe_filename name)) = Inr f1"
    and k: "copyfileobj_error e = None"
    and z: "content file = []"
  shows "fst (upload_document e file w) = Inl (HTTPException 400 ''The uploaded PDF file is empty.'')
       \<and> status_code (fst (upload_document e file w)) = 400
       \<and> vector_store (snd (upload_document e file w)) = vector_store w
       \<and> rag_chain (snd (upload_document e file w)) = rag_chain w
       \<and> calls (snd (upload_document e file w)) = calls w"
proof -
  obtain r w1 p where t: "upload_try e file w = (r, w1, p)"
    by (cases "upload_try e file w")
  note s = upload_try_saved [OF t n o]
  from s(3) obtain d where d: "fs w1 (resolve p) = Some (File d)" by blast
  from t have "r = Inl (HTTPException 400 ''The uploaded PDF file is empty.'')
      \<and> vector_store w1 = vector_store w \<and> rag_chain w1 = rag_chain w \<and> calls w1 = calls w"
    using n o k z by (cases rule: upload_try_cases) auto
  with upload_document_saved [OF c t s(2) d] show ?thesis
    by simp
qed

theorem empty_upload_is_400_witness:
  "open_wb demo_env (fs (initial_world demo_fs)) ''/tmp/pdfchat/report.pdf''
     = Inr (demo_fs([''tmp'', ''pdfchat'', ''report.pdf''] \<mapsto> File []))
   \<and> content demo_empty_file = []
   \<and> upload_document demo_env demo_empty_file (initial_world demo_fs) =
       (Inl (HTTPException 400 ''The uploaded PDF file is empty.''),
        \<lparr>fs = demo_fs([''tmp'', ''pdfchat'', ''report.pdf''] := None),
         vector_store = None, rag_chain = None, collections = Map.empty,
         calls = [], uuid_count = 0\<rparr>)"
proof -
  have c: "content_type demo_empty_file = Some ''application/pdf''"
    and n: "filename demo_empty_file = Some ''report.pdf''"
    and z: "content demo_empty_file = []"
    by (simp_all add: demo_empty_file_def demo_file_def)
  have k: "copyfileobj_error demo_env = None"
    by (simp add: demo_env_def)
  have i: "fs (initial_world demo_fs) = demo_fs"
    by (simp add: initial_world_def)
  have o: "open_wb demo_env (fs (initial_world demo_fs))
             (os_path_join (temp_dir demo_env) (safe_filename ''report.pdf''))
           = Inr (demo_fs([''tmp'', ''pdfchat'', ''report.pdf''] \<mapsto> File []))"
    by (simp add: demo_path demo_open i)
  from empty_upload_is_400 [OF c n o k z] o z show ?thesis
    by (simp add: empty_upload_run demo_path)
qed

text \<open>
  Claim C6. For every \<^verbatim>\<open>/upload\<close> request whose content type is not
  \<^verbatim>\<open>application/pdf\<close>, the endpoint raises an \<open>HTTPException\<close> with status 400 and
  leaves the whole state as it was: no file is written, no pipeline step is called, the
  globals are unchanged.
\<close>

theorem non_pdf_upload_is_400:
  assumes "content_type file \<noteq> Some ''application/pdf''"
  shows "upload_document e file w
           = (Inl (HTTPException 400 ''Invalid file type. Only PDFs are allowed.''), w)
       \<and> status_code (fst (upload_document e file w)) = 400"
  using assms by (simp add: upload_document_def)

theorem non_pdf_upload_is_400_witness:
  "content_type demo_text_file \<noteq> Some ''application/pdf''
   \<and> upload_document demo_env demo_text_file (initial_world demo_fs)
       = (Inl (HTTPException 400 ''Invalid file type. Only PDFs are allowed.''), initial_world demo_fs)"
proof -
  have c: "content_type demo_text_file \<noteq> Some ''application/pdf''"
    by (simp add: demo_text_file_def demo_file_def)
  from non_pdf_upload_is_400 [OF c, of demo_env "initial_world demo_fs"] c show ?thesis
    by simp
qed

subsection \<open>\<^verbatim>\<open>/ask\<close> and the session\<close>

text \<open>
  Claim C7. For every \<^verbatim>\<open>/ask\<close> request, whether it returns an answer or raises, the
  values of \<^verbatim>\<open>vector_store\<close> and \<^verbatim>\<open>rag_chain\<close> after the request are their values
  before it.
\<close>

theorem ask_frames_session:
  "vector_store (snd (ask_question e question w)) = vector_store w
   \<and> rag_chain (snd (ask_question e question w)) = rag_chain w"
  by (simp add: ask_question_def Let_def split: option.splits sum.splits)

lemma ask_question_session:
  "vector_store (snd (ask_question e question w)) = vector_store w"
  "rag_chain (snd (ask_question e question w)) = rag_chain w"
  by (simp_all add: ask_question_def Let_def split: option.splits sum.splits)

lemma serve_keeps_unset:
  "rag_chain w = None \<Longrightarrow> \<not> upload_succeeded reqs w \<Longrightarrow> rag_chain (serve reqs w) = None"
proof (induction reqs arbitrary: w)
  case Nil
  then show ?case by simp
next
  case (Cons a reqs)
  obtain e rq where a: "a = (e, rq)" by (cases a)
  show ?case
  proof (cases rq)
    case (Upload upl)
    obtain r w' where u: "upload_document e upl w = (r, w')"
      by (cases "upload_document e upl w")
    with Cons.prems(2) a Upload obtain x where r: "r = Inl x" and rest: "\<not> upload_succeeded reqs w'"
      by (cases r) auto
    from upload_document_session [OF u] r Cons.prems(1) have "rag_chain w' = None"
      by simp
    from Cons.IH [OF this rest] a Upload u show ?thesis
      by simp
  next
    case (Ask question)
    with Cons.prems a have rest: "\<not> upload_succeeded reqs (snd (ask_question e question w))"
      by (auto split: sum.splits)
    from Cons.prems(1) have "rag_chain (snd (ask_question e question w)) = None"
      by (simp add: ask_question_session)
    from Cons.IH [OF this rest] a Ask show ?thesis
      by simp
  qed
qed

text \<open>
  Claim C5. While \<^verbatim>\<open>rag_chain\<close> is unset, \<^verbatim>\<open>/ask\<close> raises an
  \<open>HTTPException\<close> with status 400 and the detail that no document has been processed,
  and leaves the whole state as it was: the chain is not invoked and no external call is
  made. \<^verbatim>\<open>rag_chain\<close> is unset in every state reached from the start of the process by
  a run of requests in which no upload succeeded.
\<close>

theorem ask_before_upload_is_400:
  "(rag_chain w = None \<longrightarrow>
      ask_question e question w
        = (Inl (HTTPException 400
                 ''No document has been processed. Please upload a PDF to /upload first.''), w))
   \<and> (\<not> upload_succeeded reqs (initial_world f) \<longrightarrow>
      ask_question e question (serve reqs (initial_world f))
        = (Inl (HTTPException 400
                 ''No document has been processed. Please upload a PDF to /upload first.''),
           serve reqs (initial_world f)))
   \<and> status_code (Inl (HTTPException 400
        ''No document has been processed. Please upload a PDF to /upload first.'')) = 400"
proof -
  have unset: "ask_question e question v
        = (Inl (HTTPException 400
                 ''No document has been processed. Please upload a PDF to /upload first.''), v)"
    if "rag_chain v = None" for v
    using that by (simp add: ask_question_def)
  have "rag_chain (initial_world f) = None"
    by (simp add: initial_world_def)
  from serve_keeps_unset [OF this]
  have "\<not> upload_succeeded reqs (initial_world f) \<Longrightarrow> rag_chain (serve reqs (initial_world f)) = None" .
  with unset show ?thesis by simp
qed

theorem ask_before_upload_is_400_witness:
  "rag_chain (initial_world demo_fs) = None
   \<and> \<not> upload_succeeded [(quota_env, Upload demo_file), (demo_env, Ask ''why?'')] (initial_world demo_fs)
   \<and> fst (ask_question demo_env ''what?''
            (serve [(quota_env, Upload demo_file), (demo_env, Ask ''why?'')] (initial_world demo_fs)))
       = Inl (HTTPException 400 ''No document has been processed. Please upload a PDF to /upload first.'')
   \<and> calls (snd (ask_question demo_env ''what?''
            (serve [(quota_env, Upload demo_file), (demo_env, Ask ''why?'')] (initial_world demo_fs))))
       = calls (snd (upload_document quota_env demo_file (initial_world demo_fs)))"
proof -
  have n: "\<not> upload_succeeded [(quota_env, Upload demo_file), (demo_env, Ask ''why?'')] (initial_world demo_fs)"
    by (simp add: quota_upload_run ask_question_def)
  have s: "serve [(quota_env, Upload demo_file), (demo_env, Ask ''why?'')] (initial_world demo_fs)
           = snd (upload_document quota_env demo_file (initial_world demo_fs))"
    by (simp add: quota_upload_run ask_question_def)
  from ask_before_upload_is_400 [of "initial_world demo_fs" demo_env "''what?''"
      "[(quota_env, Upload demo_file), (demo_env, Ask ''why?'')]" demo_fs] n s
  show ?thesis
    by (simp add: initial_world_def)
qed

subsection \<open>The columns handed to the vector index\<close>

lemma str_nat_nonempty: "str_nat n \<noteq> []"
  by (subst str_nat.simps) simp

lemma digit_char_inj:
  assumes "a < 10" "b < 10" "char_of (48 + a) = char_of (48 + (b::nat))"
  shows "a = b"
proof -
  have "48 + a = 48 + b"
    by (rule inj_onD [OF inj_on_char_of_nat assms(3)]) (use assms(1,2) in simp_all)
  then show ?thesis by simp
qed

lemma str_nat_inj: "str_nat a = str_nat b \<Longrightarrow> a = b"
proof (induction a arbitrary: b rule: str_nat.induct)
  case (1 n)
  show ?case
  proof (cases "n < 10")
    case True
    with "1.prems" have s: "str_nat b = [char_of (48 + n)]"
      by (simp add: str_nat.simps)
    show ?thesis
    proof (cases "b < 10")
      case b: True
      with s True show ?thesis
        by (subst (asm) str_nat.simps) (auto dest: digit_char_inj)
    next
      case False
      with s str_nat_nonempty [of "b div 10"] show ?thesis
        by (subst (asm) str_nat.simps) simp
    qed
  next
    case False
    with "1.prems" have s: "str_nat b = str_nat (n div 10) @ [char_of (48 + n mod 10)]"
      by (subst (asm) str_nat.simps) simp
    show ?thesis
    proof (cases "b < 10")
      case True
      with s str_nat_nonempty [of "n div 10"] show ?thesis
        by (subst (asm) str_nat.simps) simp
    next
      case b: False
      with s have "str_nat (n div 10) = str_nat (b div 10)"
        and c: "char_of (48 + n mod 10) = char_of (48 + b mod 10)"
        by (subst (asm) str_nat.simps, simp)+
      with "1.IH" [OF False] have d: "n div 10 = b div 10"
        by simp
      have "n mod 10 = b mod 10"
        by (rule digit_char_inj [OF _ _ c]) simp_all
      with d show ?thesis
        by (metis div_mult_mod_eq)
    qed
  qed
qed

lemma inj_str_nat: "inj str_nat"
  by (rule injI) (rule str_nat_inj)

lemma names_drawn_cong:
  "collections w' = collections w \<Longrightarrow> uuid_count w' = uuid_count w \<Longrightarrow>
   names_drawn u w' = names_drawn u w"
  by (simp add: names_drawn_def)

lemma names_drawn_initial: "names_drawn u (initial_world f)"
  by (simp add: names_drawn_def initial_world_def)

lemma names_drawn_fresh:
  assumes "inj u" "names_drawn u w"
  shows "collections w (''pdf_chat_'' @ u (uuid_count w)) = None"
proof (rule ccontr)
  assume "collections w (''pdf_chat_'' @ u (uuid_count w)) \<noteq> None"
  with assms(2) obtain k where "k < uuid_count w" "''pdf_chat_'' @ u (uuid_count w) = ''pdf_chat_'' @ u k"
    unfolding names_drawn_def by blast
  with assms(1) show False
    by (auto dest: injD)
qed

lemma names_drawn_step:
  assumes "names_drawn u w" and "uuid_count w \<le> uuid_count w'"
    and "\<And>name. collections w' name \<noteq> None \<Longrightarrow>
           collections w name \<noteq> None
         \<or> (name = ''pdf_chat_'' @ u (uuid_count w) \<and> uuid_count w < uuid_count w')"
  shows "names_drawn u w'"
  unfolding names_drawn_def
proof (intro allI impI)
  fix name
  assume "collections w' name \<noteq> None"
  from assms(3) [OF this] show "\<exists>k<uuid_count w'. name = ''pdf_chat_'' @ u k"
  proof
    assume "collections w name \<noteq> None"
    with assms(1) obtain k where "k < uuid_count w" "name = ''pdf_chat_'' @ u k"
      unfolding names_drawn_def by blast
    with assms(2) show ?thesis
      by (intro exI [of _ k]) simp
  next
    assume "name = ''pdf_chat_'' @ u (uuid_count w) \<and> uuid_count w < uuid_count w'"
    then show ?thesis by blast
  qed
qed

lemma create_vector_store_uuid_count:
  "uuid_count w \<le> uuid_count (snd (create_vector_store e chunks w))"
  by (simp add: create_vector_store_def Let_def del: upt_Suc split: option.splits sum.splits)

lemma create_vector_store_collections:
  "collections (snd (create_vector_store e chunks w)) name \<noteq> None \<Longrightarrow>
   collections w name \<noteq> None
   \<or> (name = ''pdf_chat_'' @ uuid4 e (uuid_count w)
      \<and> uuid_count w < uuid_count (snd (create_vector_store e chunks w)))"
  by (simp add: create_vector_store_def Let_def del: upt_Suc
      split: option.splits sum.splits if_splits)

lemma create_vector_store_names_drawn:
  assumes "names_drawn (uuid4 e) w"
  shows "names_drawn (uuid4 e) (snd (create_vector_store e chunks w))"
  using assms create_vector_store_uuid_count create_vector_store_collections
  by (rule names_drawn_step)

lemma upload_finally_frame2:
  "collections (snd (upload_finally r w p)) = collections w"
  "uuid_count (snd (upload_finally r w p)) = uuid_count w"
  by (simp_all add: upload_finally_def split: sum.splits)

lemma ask_question_frame2:
  "collections (snd (ask_question e question w)) = collections w"
  "uuid_count (snd (ask_question e question w)) = uuid_count w"
  by (simp_all add: ask_question_def Let_def split: option.splits sum.splits)

lemma upload_try_names_drawn:
  assumes t: "upload_try e file w = (r, w1, p)" and d: "names_drawn (uuid4 e) w"
  shows "names_drawn (uuid4 e) w1"
  using t
proof (cases rule: upload_try_cases)
  case no_name
  with d show ?thesis by simp
next
  case (open_failed name x)
  with d show ?thesis by simp
next
  case (copy_failed name f1 m)
  with d show ?thesis by (simp add: names_drawn_def)
next
  case (empty_file name f1)
  with d show ?thesis by (simp add: names_drawn_def)
next
  case (load_failed name f1 x)
  from load_and_split_pdf_frame2 [OF load_failed(6)] d show ?thesis
    by (simp add: names_drawn_def)
next
  case (store_failed name f1 chunks w3 x)
  from load_and_split_pdf_frame2 [OF store_failed(6)] d have "names_drawn (uuid4 e) w3"
    by (simp add: names_drawn_def)
  from create_vector_store_names_drawn [OF this, of chunks] store_failed(7) show ?thesis
    by simp
next
  case (chain_failed name f1 chunks w3 db w4 x)
  from load_and_split_pdf_frame2 [OF chain_failed(6)] d have "names_drawn (uuid4 e) w3"
    by (simp add: names_drawn_def)
  from create_vector_store_names_drawn [OF this, of chunks] chain_failed(7)
  have "names_drawn (uuid4 e) w4" by simp
  with create_rag_chain_frame2 [OF chain_failed(8)] show ?thesis
    by (simp add: names_drawn_def)
next
  case (ok name f1 chunks w3 db w4 ch w6)
  from load_and_split_pdf_frame2 [OF ok(6)] d have "names_drawn (uuid4 e) w3"
    by (simp add: names_drawn_def)
  from create_vector_store_names_drawn [OF this, of chunks] ok(7)
  have "names_drawn (uuid4 e) w4" by simp
  with create_rag_chain_frame2 [OF ok(8)] ok(10) show ?thesis
    by (simp add: names_drawn_def)
qed

lemma upload_document_names_drawn:
  assumes d: "names_drawn (uuid4 e) w"
  shows "names_drawn (uuid4 e) (snd (upload_document e file w))"
proof (cases "content_type file = Some ''application/pdf''")
  case False
  with d show ?thesis by (simp add: upload_document_def)
next
  case True
  obtain rt w1 p where t: "upload_try e file w = (rt, w1, p)"
    by (cases "upload_try e file w")
  from upload_try_names_drawn [OF t d] upload_document_pdf [OF True t]
  show ?thesis
    by (simp add: names_drawn_cong [OF upload_finally_frame2])
qed

lemma serve_names_drawn:
  "\<forall>q \<in> set reqs. uuid4 (fst q) = u \<Longrightarrow> names_drawn u w \<Longrightarrow> names_drawn u (serve reqs w)"
proof (induction reqs arbitrary: w)
  case Nil
  then show ?case by simp
next
  case (Cons a reqs)
  obtain e rq where a: "a = (e, rq)" by (cases a)
  with Cons.prems(1) have u: "uuid4 e = u" by simp
  have "names_drawn u (snd (handle e rq w))"
  proof (cases rq)
    case (Upload upl)
    with upload_document_names_drawn [of e w upl] Cons.prems(2) u show ?thesis
      by simp
  next
    case (Ask question)
    with Cons.prems(2) show ?thesis
      by (simp add: names_drawn_cong [OF ask_question_frame2])
  qed
  with Cons.IH Cons.prems(1) a show ?case
    by simp
qed

lemma create_vector_store_no_add:
  assumes "embeddings_init e \<noteq> None \<or> chroma_init e (''pdf_chat_'' @ uuid4 e (uuid_count w)) \<noteq> None
           \<or> (\<exists>x. embed_documents e (map page_content chunks) = Inl x)"
  shows "\<forall>c \<in> set (drop (length (calls w)) (calls (snd (create_vector_store e chunks w)))).
           \<forall>name ids embs docs metas. c \<noteq> Collection_add name ids embs docs metas"
  using assms
  by (auto simp: create_vector_store_def Let_def simp del: upt_Suc split: option.splits sum.splits)

lemma distinct_draws:
  assumes "inj u"
  shows "distinct (map u [Suc c ..< Suc c + n])" and "u c \<notin> set (map u [Suc c ..< Suc c + n])"
proof -
  from assms have "inj_on u (set [Suc c ..< Suc c + n])"
    by (rule inj_on_subset) simp
  then show "distinct (map u [Suc c ..< Suc c + n])"
    by (simp add: distinct_map del: upt_Suc)
  from assms show "u c \<notin> set (map u [Suc c ..< Suc c + n])"
    by (auto dest: injD simp del: upt_Suc)
qed

text \<open>
  Claim C8. Suppose \<^verbatim>\<open>create_vector_store\<close> gets as far as the embedding call (the
  embeddings model and the collection are set up) and the embedding client returns one
  vector per text. Then \<^verbatim>\<open>_collection.add\<close> is called, exactly once and as the last
  call, on the collection named by the UUID drawn in this call, with four columns (ids,
  embeddings, documents, metadatas) whose lengths all equal the number of chunks; the ids
  are the UUIDs drawn next, one per chunk, and the draw counter has advanced by one plus
  the number of chunks. If \<^verbatim>\<open>add\<close> raises, so does the helper. If it returns and the
  client held no collection of that name, the store returned, and held by the client
  under that name, consists of exactly these columns: nothing is appended to an earlier
  collection. When no two draws of \<^verbatim>\<open>uuid4\<close> collide, the ids are pairwise distinct
  and differ from the UUID in the name, and in every state that a run of requests from
  the start of the process leads to, the client holds no collection of the drawn name.
\<close>

theorem create_vector_store_add_columns:
  assumes i1: "embeddings_init e = None"
    and i2: "chroma_init e (''pdf_chat_'' @ uuid4 e (uuid_count w)) = None"
    and emb: "embed_documents e (map page_content chunks) = Inr vs"
    and len: "length vs = length (map page_content chunks)"
  shows
   "calls (snd (create_vector_store e chunks w))
      = calls w @ [Embeddings_init, Chroma_init (''pdf_chat_'' @ uuid4 e (uuid_count w)),
                   Embed_documents (map page_content chunks),
                   Collection_add (''pdf_chat_'' @ uuid4 e (uuid_count w))
                     (map (uuid4 e) [Suc (uuid_count w) ..< Suc (uuid_count w) + length chunks])
                     vs (map page_content chunks) (map metadata chunks)]
  \<and> length (map (uuid4 e) [Suc (uuid_count w) ..< Suc (uuid_count w) + length chunks]) = length chunks
  \<and> length vs = length chunks
  \<and> length (map page_content chunks) = length chunks
  \<and> length (map metadata chunks) = length chunks
  \<and> uuid_count (snd (create_vector_store e chunks w)) = uuid_count w + 1 + length chunks
  \<and> (\<forall>x. collection_add_error e (map (uuid4 e) [Suc (uuid_count w) ..< Suc (uuid_count w) + length chunks])
          vs (map page_content chunks) (map metadata chunks) = Some x \<longrightarrow>
          fst (create_vector_store e chunks w) = Inl x)
  \<and> (collection_add_error e (map (uuid4 e) [Suc (uuid_count w) ..< Suc (uuid_count w) + length chunks])
          vs (map page_content chunks) (map metadata chunks) = None
       \<and> collections w (''pdf_chat_'' @ uuid4 e (uuid_count w)) = None \<longrightarrow>
          fst (create_vector_store e chunks w) =
            Inr \<lparr>col_name = ''pdf_chat_'' @ uuid4 e (uuid_count w),
             col_ids = map (uuid4 e) [Suc (uuid_count w) ..< Suc (uuid_count w) + length chunks],
             col_embeddings = vs,
             col_documents = map page_content chunks,
             col_metadatas = map metadata chunks\<rparr>
        \<and> collections (snd (create_vector_store e chunks w)) =
            (collections w)((''pdf_chat_'' @ uuid4 e (uuid_count w)) \<mapsto>
            \<lparr>col_name = ''pdf_chat_'' @ uuid4 e (uuid_count w),
             col_ids = map (uuid4 e) [Suc (uuid_count w) ..< Suc (uuid_count w) + length chunks],
             col_embeddings = vs,
             col_documents = map page_content chunks,
             col_metadatas = map metadata chunks\<rparr>))
  \<and> (inj (uuid4 e) \<longrightarrow>
          distinct (map (uuid4 e) [Suc (uuid_count w) ..< Suc (uuid_count w) + length chunks])
        \<and> uuid4 e (uuid_count w) \<notin> set (map (uuid4 e) [Suc (uuid_count w) ..< Suc (uuid_count w) + length chunks]))
  \<and> (inj (uuid4 e) \<and> (\<forall>q \<in> set reqs. uuid4 (fst q) = uuid4 e)
       \<and> collections w = collections (serve reqs (initial_world f))
       \<and> uuid_count w = uuid_count (serve reqs (initial_world f)) \<longrightarrow>
          collections w (''pdf_chat_'' @ uuid4 e (uuid_count w)) = None)"
  (is "?calls \<and> ?l1 \<and> ?l2 \<and> ?l3 \<and> ?l4 \<and> ?count \<and> ?raise \<and> ?exact \<and> ?distinct \<and> ?fresh")
proof -
  from len have l2: ?l2 by simp
  have l1: ?l1 and l3: ?l3 and l4: ?l4
    by (simp_all del: upt_Suc)
  from i1 i2 emb have calls: ?calls
    by (simp add: create_vector_store_def Let_def log_call_def del: upt_Suc split: option.splits)
  from i1 i2 emb have count: ?count
    by (simp add: create_vector_store_def Let_def log_call_def del: upt_Suc split: option.splits)
  from i1 i2 emb have raise: ?raise
    by (simp add: create_vector_store_outcome del: upt_Suc)
  from i1 i2 emb have exact: ?exact
    by (auto simp: create_vector_store_def Let_def log_call_def get_or_create_collection_def
        collection_add_def simp del: upt_Suc)
  have distinct: ?distinct
    using distinct_draws [of "uuid4 e" "uuid_count w" "length chunks"] by blast
  have fresh: ?fresh
  proof (intro impI, elim conjE)
    assume inj: "inj (uuid4 e)" and same: "\<forall>q \<in> set reqs. uuid4 (fst q) = uuid4 e"
      and c: "collections w = collections (serve reqs (initial_world f))"
      and u: "uuid_count w = uuid_count (serve reqs (initial_world f))"
    from serve_names_drawn [OF same names_drawn_initial]
    have "names_drawn (uuid4 e) (serve reqs (initial_world f))" .
    from names_drawn_fresh [OF inj this] c u
    show "collections w (''pdf_chat_'' @ uuid4 e (uuid_count w)) = None"
      by simp
  qed
  from calls l1 l2 l3 l4 count raise exact distinct fresh show ?thesis
    by blast
qed

lemma second_store_run:
  "create_vector_store demo_env second_chunks demo_ready_world =
     (Inr second_db,
      demo_ready_world
        \<lparr>collections := [''pdf_chat_0'' \<mapsto> demo_db, ''pdf_chat_3'' \<mapsto> second_db],
         calls := calls demo_ready_world @
                  [Embeddings_init, Chroma_init ''pdf_chat_3'',
                   Embed_documents [''other page''],
                   Collection_add ''pdf_chat_3'' [''4''] [[10, 1]] [''other page'']
                     [[(''page'', ''0'')]]],
         uuid_count := 5\<rparr>)"
  unfolding demo_ready_world_eq
  by (simp add: second_defs run_defs str_nat.simps char_of_digits)

lemma demo_serve:
  "serve [(demo_env, Upload demo_file)] (initial_world demo_fs) = demo_ready_world"
  by (simp add: demo_ready_world_def)

theorem create_vector_store_add_columns_witness:
  "embeddings_init demo_env = None
   \<and> chroma_init demo_env ''pdf_chat_3'' = None
   \<and> embed_documents demo_env (map page_content second_chunks) = Inr [[10, 1]]
   \<and> length [[10, 1 :: real]] = length (map page_content second_chunks)
   \<and> inj (uuid4 demo_env)
   \<and> serve [(demo_env, Upload demo_file)] (initial_world demo_fs) = demo_ready_world
   \<and> collections demo_ready_world ''pdf_chat_0'' = Some demo_db
   \<and> collections demo_ready_world ''pdf_chat_3'' = None
   \<and> calls (snd (create_vector_store demo_env second_chunks demo_ready_world))
       = calls demo_ready_world @
           [Embeddings_init, Chroma_init ''pdf_chat_3'', Embed_documents [''other page''],
            Collection_add ''pdf_chat_3'' [''4''] [[10, 1]] [''other page'']
              [[(''page'', ''0'')]]]
   \<and> uuid_count demo_ready_world = 3
   \<and> uuid_count (snd (create_vector_store demo_env second_chunks demo_ready_world)) = 5
   \<and> fst (create_vector_store demo_env second_chunks demo_ready_world) = Inr second_db
   \<and> collections (snd (create_vector_store demo_env second_chunks demo_ready_world))
       = [''pdf_chat_0'' \<mapsto> demo_db, ''pdf_chat_3'' \<mapsto> second_db]"
proof -
  have u: "uuid4 demo_env = str_nat"
    by (simp add: demo_env_def)
  have c: "uuid_count demo_ready_world = 3"
    "collections demo_ready_world = [''pdf_chat_0'' \<mapsto> demo_db]"
    by (simp_all add: demo_ready_world_eq)
  have n: "str_nat 3 = ''3''"
    by (simp add: str_nat.simps char_of_digits)
  have i1: "embeddings_init demo_env = None"
    and i2: "chroma_init demo_env (''pdf_chat_'' @ uuid4 demo_env (uuid_count demo_ready_world)) = None"
    and emb: "embed_documents demo_env (map page_content second_chunks) = Inr [[10, 1]]"
    and len: "length [[10, 1 :: real]] = length (map page_content second_chunks)"
    by (simp_all add: demo_env_def second_chunks_def)
  have inj: "inj (uuid4 demo_env)"
    unfolding u by (rule inj_str_nat)
  note T = create_vector_store_add_columns [OF i1 i2 emb len,
      of "[(demo_env, Upload demo_file)]" demo_fs]
  have same: "\<forall>q \<in> set [(demo_env, Upload demo_file)]. uuid4 (fst q) = uuid4 demo_env"
    by simp
  have st: "collections demo_ready_world
              = collections (serve [(demo_env, Upload demo_file)] (initial_world demo_fs))"
    "uuid_count demo_ready_world
              = uuid_count (serve [(demo_env, Upload demo_file)] (initial_world demo_fs))"
    by (simp_all only: demo_serve)
  from T inj same st
  have fresh: "collections demo_ready_world
                 (''pdf_chat_'' @ uuid4 demo_env (uuid_count demo_ready_world)) = None"
    by blast
  have nm: "''pdf_chat_'' @ uuid4 demo_env (uuid_count demo_ready_world) = ''pdf_chat_3''"
    by (simp add: u c n)
  from fresh have f3: "collections demo_ready_world ''pdf_chat_3'' = None"
    unfolding nm .
  from T have "uuid_count (snd (create_vector_store demo_env second_chunks demo_ready_world))
                 = uuid_count demo_ready_world + 1 + length second_chunks"
    by blast
  then have cnt: "uuid_count (snd (create_vector_store demo_env second_chunks demo_ready_world)) = 5"
    by (simp add: c second_chunks_def)
  have i2': "chroma_init demo_env ''pdf_chat_3'' = None"
    using i2 unfolding nm .
  note known = i1 i2' emb len inj demo_serve f3 cnt c(1)
  show ?thesis
    by (intro conjI) (rule known | simp add: second_store_run c(2))+
qed

end
